theory Spec2Isabelle
  imports Complex_Main "HOL-Library.AList"
begin

section \<open>The brokerage account of the order ticket (STX.Account, STX.Account.Demo)\<close>

text \<open>
  The account keeps four tables: balances, positions (one per symbol), trades (the
  lots of a symbol, in order) and open orders (the resting orders of a symbol, in
  order). The operations of the demo account mutate these tables in place and then
  call a completion callback. Here every operation is a function from the account
  before the call to the account after it, together with the list of callback
  invocations it made; a JavaScript \<open>TypeError\<close> is the result \<open>Inl TypeError\<close>.

  Conventions of the embedding:
  \<^item> A JavaScript number is an IEEE double. A finite double is the rational it
    denotes, and every arithmetic operation of the code is the exact operation
    followed by the rounding \<open>fl\<close> to the nearest double (ties to the even
    significand). Negation, \<open>Math.abs\<close> and comparisons are exact. An optional number
    is \<open>rat option\<close>, where \<open>None\<close> stands for a value that is no finite number
    (\<open>undefined\<close>, \<open>null\<close>, \<open>NaN\<close>, an infinity). The exponent of \<open>fl\<close> is not
    bounded: results whose magnitude is \<open>2^1024\<close> or more (an infinity in JavaScript)
    or nonzero and below \<open>2^-1022\<close> (subnormal) are outside the model.
  \<^item> An optional string property is \<open>string option\<close>, \<open>None\<close> being \<open>undefined\<close>.
    Identifiers are strings, so the comparison \<open>==\<close> of two identifiers is equality
    of two \<open>string option\<close> values (\<open>undefined == undefined\<close> holds in JavaScript).
  \<^item> The truth value JavaScript gives a property in a condition is \<open>truthy\<close>: a
    number is true unless it is \<open>0\<close> or \<open>NaN\<close>, a string unless it is empty, an
    object or array always, \<open>undefined\<close> and \<open>null\<close> never.
  \<^item> \<open>positions\<close> and \<open>trades\<close> are maps from the property key. \<open>openOrders\<close> is
    an association list in the order \<open>for(var symbol in this.openOrders)\<close>
    enumerates it (the order of insertion, for symbols that are not array indices),
    since \<open>replaceOrder\<close> stops at the first match.
  \<^item> Strings are lists of characters; \<open>length\<close> and membership stand for
    \<open>.length\<close> and \<open>.indexOf(c) != -1\<close> on ASCII symbols.
\<close>

subsection \<open>Values\<close>

datatype error = TypeError

definition truthy :: "rat option \<Rightarrow> bool" where
  "truthy v = (case v of None \<Rightarrow> False | Some x \<Rightarrow> x \<noteq> 0)"

definition truthy_str :: "string option \<Rightarrow> bool" where
  "truthy_str v = (case v of None \<Rightarrow> False | Some s \<Rightarrow> s \<noteq> [])"

text \<open>
  The string JavaScript makes of an optional string where a string is needed, as the
  key in \<open>obj[k]\<close> or as an operand of \<open>+\<close>: \<open>undefined\<close> becomes \<open>"undefined"\<close>.
\<close>

definition key_of :: "string option \<Rightarrow> string" where
  "key_of v = (case v of None \<Rightarrow> ''undefined'' | Some s \<Rightarrow> s)"

text \<open>
  Rounding to a double. \<open>bits n\<close> is the length of the binary numeral of \<open>n\<close>, and
  \<open>expo x\<close> the exponent \<open>e\<close> with \<open>2^e \<le> |x| < 2^(e+1)\<close>. A double has a significand
  of 53 bits, so the doubles around \<open>x\<close> are the multiples of \<open>2^(expo x - 52)\<close>, and
  \<open>fl x\<close> is the multiple nearest to \<open>x\<close>, the even one of two equally near.
\<close>

fun bits :: "nat \<Rightarrow> nat" where
  "bits n = (if n = 0 then 0 else Suc (bits (n div 2)))"

definition expo :: "rat \<Rightarrow> int" where
  "expo x =
     (let (a, b) = quotient_of \<bar>x\<bar>;
          d = int (bits (nat a)) - int (bits (nat b))
      in if 2 powi d \<le> \<bar>x\<bar> then d else d - 1)"

definition roundHalfEven :: "rat \<Rightarrow> int" where
  "roundHalfEven m =
     (let f = \<lfloor>m\<rfloor>; r = m - of_int f
      in if r < 1 / 2 then f else if 1 / 2 < r then f + 1
         else if even f then f else f + 1)"

definition fl :: "rat \<Rightarrow> rat" where
  "fl x =
     (if x = 0 then 0
      else let ulp = 2 powi (expo x - 52) in of_int (roundHalfEven (x / ulp)) * ulp)"

text \<open>
  \<open>Number.prototype.toFixed(2)\<close> of a finite double \<open>x\<close>: the sign is split off, and
  of the integers \<open>n\<close> with \<open>n / 100\<close> nearest to the exact value of the magnitude the
  larger one is taken. The result is a decimal string in JavaScript; \<open>toFixed2 x\<close> is
  the decimal number that string denotes. (From \<open>10^21\<close> on \<open>toFixed\<close> prints the
  shortest decimal that converts back to \<open>x\<close>; a double of that size is a whole
  number, the formula returns \<open>x\<close> itself, and so still the number the string
  converts to.)
\<close>

definition toFixed2 :: "rat \<Rightarrow> rat" where
  "toFixed2 x =
     (if x < 0 then - (of_int \<lfloor>(- x) * 100 + 1 / 2\<rfloor> / 100)
      else of_int \<lfloor>x * 100 + 1 / 2\<rfloor> / 100)"

subsection \<open>Data model\<close>

text \<open>
  The \<open>oco\<close> property of an order: absent, \<open>null\<close>, the literal \<open>true\<close> (a single
  leg without a sibling) or the id of the sibling.
\<close>

datatype oco = OcoAbsent | OcoNull | OcoTrue | OcoId string

text \<open>An order nested in the \<open>oto\<close> array of a parent order.\<close>

record oto_order =
  c_id :: "string option"
  c_symbol :: "string option"
  c_action :: string
  c_quantity :: rat
  c_limit :: "rat option"
  c_stop :: "rat option"
  c_tif :: "string option"
  c_oco :: oco

record order =
  o_id :: "string option"
  o_tradeid :: "string option"
  o_symbol :: "string option"
  o_action :: string
  o_quantity :: rat
  o_limit :: "rat option"
  o_stop :: "rat option"
  o_marketIfTouched :: "rat option"
  o_tif :: "string option"
  o_currency :: "string option"
  o_oco :: oco
  o_oto :: "oto_order list option"
  o_vspId :: "string option"

record protect =
  pr_limit :: "rat option"
  pr_stop :: "rat option"

record trade =
  t_id :: "string option"
  t_time :: int
  t_quantity :: rat
  t_basis :: rat
  t_price :: rat
  t_currency :: "string option"
  t_protect :: "protect option"

text \<open>
  The \<open>basis\<close> property of a position: a number, as the constructor and the first fill
  store it; the string \<open>toFixed(2)\<close> returned, kept as the decimal number it denotes;
  or a value that is no finite number (\<open>NaN\<close>, an infinity, or the string of one). Where
  the code multiplies with the basis, a string is converted to the nearest double.
\<close>

datatype basis = Number rat | Fixed rat | NotFinite

definition basis_number :: "basis \<Rightarrow> rat option" where
  "basis_number b = (case b of Number x \<Rightarrow> Some x | Fixed d \<Rightarrow> Some (fl d) | NotFinite \<Rightarrow> None)"

record position =
  p_symbol :: "string option"
  p_quantity :: rat
  p_basis :: basis
  p_price :: rat
  p_prevClose :: rat
  p_currency :: "string option"

record balances =
  liquidity :: "rat option"
  cash :: "rat option"
  unsettledCash :: "rat option"
  profitLoss :: "rat option"
  buyingPower :: "rat option"

record account =
  balances :: balances
  openOrders :: "(string \<times> order list) list"
  positions :: "string \<rightharpoonup> position"
  trades :: "string \<rightharpoonup> trade list"

text \<open>
  A callback invocation is the list of the arguments passed: \<open>cb()\<close> is \<open>[]\<close>,
  \<open>cb(null, {id: ids})\<close> is \<open>[ArgNull, ArgIds ids]\<close>.
\<close>

datatype cb_arg = ArgNull | ArgIds "string list"

type_synonym cb_call = "cb_arg list"

subsection \<open>STX.Account.prototype.tradability\<close>

record tradability_result =
  tradable :: bool
  shortable :: bool
  marketable :: bool
  decimalPrecision :: "rat option"

definition isIndex :: "string \<Rightarrow> bool" where
  "isIndex symbol =
     (if CHR ''$'' \<in> set symbol then True
      else if CHR ''^'' \<in> set symbol then (if length symbol = 7 then False else True)
      else False)"

text \<open>The value handed to the callback, which is called once on either path.\<close>

definition tradability :: "string option \<Rightarrow> tradability_result" where
  "tradability symbol =
     (let t = \<lparr>tradable = True, shortable = True, marketable = True, decimalPrecision = None\<rparr>
      in if \<not> truthy_str symbol then t\<lparr>tradable := False\<rparr>
         else if isIndex (the symbol) then t\<lparr>tradable := False\<rparr>
         else t)"

subsection \<open>STX.Account.Demo.prototype.execute\<close>

text \<open>
  \<open>STX.uniqueID\<close>, \<open>new Date().getTime()\<close> and the quote of the chart are not part of
  the account. An operation takes them as arguments: \<open>uniqueID n\<close> is the value the
  \<open>n\<close>-th call of \<open>STX.uniqueID()\<close> inside the operation returns (counted from 0),
  \<open>now\<close> is the time stamp, and \<open>price\<close> the price the caller supplies.

  Line 602, \<open>quantity*=-1\<close>: the negation of a double is exact.
\<close>

definition signed_quantity :: "order \<Rightarrow> rat" where
  "signed_quantity order =
     (if o_action order = ''sell'' \<or> o_action order = ''short''
      then o_quantity order * (- 1) else o_quantity order)"

text \<open>Lines 603 and 604, with \<open>amount\<close> the product \<open>quantity*price\<close> as a double.\<close>

definition debit :: "rat \<Rightarrow> balances \<Rightarrow> balances" where
  "debit amount b =
     (let c = map_option (\<lambda>c. fl (c - amount)) (cash b)
      in b\<lparr>cash := c, buyingPower := map_option (\<lambda>c. fl (2 * c)) c\<rparr>)"

definition reclassify :: "position \<Rightarrow> string \<Rightarrow> string" where
  "reclassify position action =
     (if p_quantity position < 0
      then (if action = ''buy'' then ''cover''
            else if action = ''sell'' then ''short'' else action)
      else action)"

definition opening_action :: "string \<Rightarrow> bool" where
  "opening_action action = (action = ''buy'' \<or> action = ''short'')"

text \<open>
  Line 614, the weighted basis: two products, their sum, the sum of the quantities and
  the quotient are each rounded to a double, and \<open>toFixed(2)\<close> prints the quotient. A
  division by zero gives an infinity or \<open>NaN\<close> in JavaScript, which \<open>toFixed\<close> prints as
  such: no finite number.
\<close>

definition weighted_basis :: "position \<Rightarrow> rat \<Rightarrow> rat \<Rightarrow> basis" where
  "weighted_basis position quantity price =
     (case basis_number (p_basis position) of
        None \<Rightarrow> NotFinite
      | Some b \<Rightarrow>
          let n = fl (fl (p_quantity position * b) + fl (quantity * price));
              d = fl (p_quantity position + quantity)
          in if d = 0 then NotFinite else Fixed (toFixed2 (fl (n / d))))"

text \<open>
  Lines 605 to 621: the position of the order's symbol is created or updated, and
  deleted when its quantity becomes 0. The second component is \<open>order.action\<close> after
  the reclassification, which the rest of \<open>execute\<close> reads.
\<close>

definition fill_position ::
  "order \<Rightarrow> rat \<Rightarrow> rat \<Rightarrow> (string \<rightharpoonup> position) \<Rightarrow> (string \<rightharpoonup> position) \<times> string" where
  "fill_position order quantity price ps =
     (let k = key_of (o_symbol order) in
      case ps k of
        None \<Rightarrow>
          (ps(k \<mapsto> \<lparr>p_symbol = None, p_quantity = quantity, p_basis = Number price,
                     p_price = price, p_prevClose = price, p_currency = None\<rparr>),
           o_action order)
      | Some position \<Rightarrow>
          let action = reclassify position (o_action order);
              basis = (if opening_action action then weighted_basis position quantity price
                       else p_basis position);
              q = fl (p_quantity position + quantity)
          in (if q = 0 then ps(k := None)
              else ps(k \<mapsto> position\<lparr>p_quantity := q, p_basis := basis, p_price := price\<rparr>),
              action))"

fun oto_stop :: "oto_order list \<Rightarrow> rat option" where
  "oto_stop [] = None"
| "oto_stop [a] = (if truthy (c_stop a) then c_stop a else None)"
| "oto_stop (a # b # _) =
     (if truthy (c_stop a) then c_stop a
      else if truthy (c_stop b) then c_stop b else None)"

fun oto_limit :: "oto_order list \<Rightarrow> rat option" where
  "oto_limit [] = None"
| "oto_limit [a] = (if truthy (c_limit a) then c_limit a else None)"
| "oto_limit (a # b # _) =
     (if truthy (c_limit a) then c_limit a
      else if truthy (c_limit b) then c_limit b else None)"

definition oto_protect :: "oto_order list \<Rightarrow> protect" where
  "oto_protect oto = \<lparr>pr_limit = oto_limit oto, pr_stop = oto_stop oto\<rparr>"

text \<open>
  The loop of lines 637 to 664 over the lots of the symbol, with the quantity \<open>qty\<close>
  still to close and the open orders of the symbol (\<open>None\<close> when the symbol has no
  entry, where reading \<open>.length\<close> faults). A lot that is not larger than \<open>qty\<close> is
  removed with the open orders that protect it; a larger lot is reduced, as are the
  open orders that protect it, and ends the loop. The subtractions of lines 641, 652
  and 657 are rounded to a double.
\<close>

fun consume ::
  "string option \<Rightarrow> rat \<Rightarrow> order list option \<Rightarrow> trade list
   \<Rightarrow> error + (trade list \<times> rat \<times> order list option)" where
  "consume vspId qty oo [] = Inr ([], qty, oo)"
| "consume vspId qty oo (t # ts) =
     (if truthy_str vspId \<and> t_id t \<noteq> vspId then
        (case consume vspId qty oo ts of
           Inl e \<Rightarrow> Inl e
         | Inr (ts', qty', oo') \<Rightarrow> Inr (t # ts', qty', oo'))
      else if \<bar>t_quantity t\<bar> \<le> \<bar>qty\<bar> then
        (case t_protect t of
           None \<Rightarrow> consume vspId (fl (qty - t_quantity t)) oo ts
         | Some _ \<Rightarrow>
             (case oo of
                None \<Rightarrow> Inl TypeError
              | Some os \<Rightarrow>
                  consume vspId (fl (qty - t_quantity t))
                    (Some (filter (\<lambda>o1. o_tradeid o1 \<noteq> t_id t) os)) ts))
      else
        (case t_protect t of
           None \<Rightarrow> Inr (t\<lparr>t_quantity := fl (t_quantity t - qty)\<rparr> # ts, 0, oo)
         | Some _ \<Rightarrow>
             (case oo of
                None \<Rightarrow> Inl TypeError
              | Some os \<Rightarrow>
                  Inr (t\<lparr>t_quantity := fl (t_quantity t - qty)\<rparr> # ts, 0,
                       Some (map (\<lambda>o2. if o_tradeid o2 = t_id t
                                        then o2\<lparr>o_quantity := fl (o_quantity o2 - qty)\<rparr>
                                        else o2)
                               os)))))"

text \<open>
  Lines 630 to 671. The result is the new value of \<open>trades[symbol]\<close> (\<open>None\<close> when the
  entry is deleted), \<open>newTrade.quantity\<close> (\<open>None\<close> when it was never set) and the open
  orders of the symbol.
\<close>

definition fill_trades ::
  "order \<Rightarrow> string \<Rightarrow> rat \<Rightarrow> (rat \<Rightarrow> trade) \<Rightarrow> trade list option \<Rightarrow> order list option
   \<Rightarrow> error + (trade list option \<times> rat option \<times> order list option)" where
  "fill_trades order action quantity newTrade tso oo =
     (let ts0 = (case tso of None \<Rightarrow> [] | Some ts \<Rightarrow> ts) in
      if opening_action action then Inr (Some (ts0 @ [newTrade quantity]), Some quantity, oo)
      else
        (case consume (o_vspId order) (quantity * (- 1)) oo ts0 of
           Inl e \<Rightarrow> Inl e
         | Inr (ts, qty, oo') \<Rightarrow>
             if qty = 0 then Inr (if ts = [] then None else Some ts, None, oo')
             else Inr (Some (ts @ [newTrade (qty * (- 1))]), Some (qty * (- 1)), oo')))"

fun remove_first :: "('a \<Rightarrow> bool) \<Rightarrow> 'a list \<Rightarrow> 'a list" where
  "remove_first P [] = []"
| "remove_first P (x # xs) = (if P x then xs else x # remove_first P xs)"

text \<open>Lines 680 to 682: the protective orders of a new lot, paired when both exist.\<close>

definition protective_orders ::
  "string \<Rightarrow> string \<Rightarrow> string option \<Rightarrow> rat \<Rightarrow> protect \<Rightarrow> order list" where
  "protective_orders uid action tradeid quantity pr =
     (if truthy (pr_limit pr)
      then [\<lparr>o_id = Some (uid @ ''A''), o_tradeid = tradeid, o_symbol = None,
             o_action = (if action = ''buy'' then ''sell'' else ''cover''),
             o_quantity = \<bar>quantity\<bar>, o_limit = pr_limit pr, o_stop = None,
             o_marketIfTouched = None, o_tif = Some ''GTC'', o_currency = None,
             o_oco = (if truthy (pr_stop pr) then OcoId (uid @ ''B'') else OcoNull),
             o_oto = None, o_vspId = None\<rparr>]
      else [])
     @ (if truthy (pr_stop pr)
        then [\<lparr>o_id = Some (uid @ ''B''), o_tradeid = tradeid, o_symbol = None,
               o_action = (if action = ''buy'' then ''sell'' else ''cover''),
               o_quantity = \<bar>quantity\<bar>, o_limit = None, o_stop = pr_stop pr,
               o_marketIfTouched = None, o_tif = Some ''GTC'', o_currency = None,
               o_oco = (if truthy (pr_limit pr) then OcoId (uid @ ''A'') else OcoNull),
               o_oto = None, o_vspId = None\<rparr>]
        else [])"

definition execute ::
  "order \<Rightarrow> rat \<Rightarrow> (nat \<Rightarrow> string) \<Rightarrow> int \<Rightarrow> account \<Rightarrow> error + account" where
  "execute order price uniqueID now s =
     (let k = key_of (o_symbol order);
          quantity = signed_quantity order;
          bal = debit (fl (quantity * price)) (balances s);
          (ps, action) = fill_position order quantity price (positions s);
          protect = map_option oto_protect (o_oto order);
          newTrade = (\<lambda>q. \<lparr>t_id = Some (uniqueID 0), t_time = now, t_quantity = q,
                            t_basis = price, t_price = price, t_currency = None,
                            t_protect = protect\<rparr>)
      in case fill_trades order action quantity newTrade (trades s k)
                (map_of (openOrders s) k) of
           Inl e \<Rightarrow> Inl e
         | Inr (tso, nq, oo) \<Rightarrow>
             (case oo of
                None \<Rightarrow> Inl TypeError
              | Some os \<Rightarrow>
                  let os1 = remove_first (\<lambda>x. o_id x = o_id order) os;
                      os2 = (case protect of
                               None \<Rightarrow> os1
                             | Some pr \<Rightarrow>
                                 if truthy nq
                                 then os1 @ protective_orders (uniqueID 1) action
                                              (Some (uniqueID 0)) (the nq) pr
                                 else os1)
                  in Inr (s\<lparr>balances := bal, positions := ps,
                            trades := (trades s)(k := tso),
                            openOrders := (if os2 = [] then AList.delete k (openOrders s)
                                           else AList.update k os2 (openOrders s))\<rparr>)))"

subsection \<open>STX.Account.Demo.prototype.placeOrder\<close>

text \<open>The argument is one order or an array of orders (an OCO pair).\<close>

datatype order_arg = Single order | Array "order list"

definition ensure_orders ::
  "string \<Rightarrow> (string \<times> order list) list \<Rightarrow> (string \<times> order list) list" where
  "ensure_orders k oo = (case map_of oo k of None \<Rightarrow> AList.update k [] oo | Some _ \<Rightarrow> oo)"

definition push_order ::
  "string \<Rightarrow> order \<Rightarrow> (string \<times> order list) list \<Rightarrow> (string \<times> order list) list" where
  "push_order k order oo = AList.map_entry k (\<lambda>os. os @ [order]) oo"

definition placeOrder ::
  "(string \<Rightarrow> rat) \<Rightarrow> (nat \<Rightarrow> string) \<Rightarrow> int \<Rightarrow> order_arg \<Rightarrow> account
   \<Rightarrow> error + (account \<times> cb_call list)" where
  "placeOrder getCurrentPriceForOrder uniqueID now arg s =
     (case arg of
        Array orders \<Rightarrow>
          (case orders of
             a # b # _ \<Rightarrow>
               let symbol = key_of (o_symbol a);
                   a' = a\<lparr>o_id := Some (uniqueID 0), o_oco := OcoId (uniqueID 1)\<rparr>;
                   b' = b\<lparr>o_id := Some (uniqueID 1), o_oco := OcoId (uniqueID 0)\<rparr>
               in Inr (s\<lparr>openOrders :=
                           push_order symbol b'
                             (push_order symbol a' (ensure_orders symbol (openOrders s)))\<rparr>,
                       [[]])
           | _ \<Rightarrow> Inl TypeError)
      | Single order \<Rightarrow>
          let k = key_of (o_symbol order);
              s1 = s\<lparr>openOrders := ensure_orders k (openOrders s)\<rparr>
          in if \<not> truthy (o_limit order) \<and> \<not> truthy (o_stop order) then
               (case execute order (getCurrentPriceForOrder (o_action order)) uniqueID now s1 of
                  Inl e \<Rightarrow> Inl e
                | Inr s2 \<Rightarrow> Inr (s2, [[]]))
             else
               Inr (s1\<lparr>openOrders :=
                         push_order k (order\<lparr>o_id := Some (uniqueID 0)\<rparr>) (openOrders s1)\<rparr>,
                    [[]]))"

subsection \<open>STX.Account.Demo.prototype.cancelOrder\<close>

text \<open>
  \<open>order.id == openOrder.oco\<close>. Comparing a string with \<open>true\<close> converts both to
  numbers; the conversion of strings is the language's, and enters as the predicate
  \<open>isOne s\<close>, "the string \<open>s\<close> converts to the number 1".
\<close>

definition id_eq_oco :: "(string \<Rightarrow> bool) \<Rightarrow> string option \<Rightarrow> oco \<Rightarrow> bool" where
  "id_eq_oco isOne i c =
     (case c of
        OcoAbsent \<Rightarrow> i = None
      | OcoNull \<Rightarrow> i = None
      | OcoTrue \<Rightarrow> (case i of None \<Rightarrow> False | Some s \<Rightarrow> isOne s)
      | OcoId t \<Rightarrow> i = Some t)"

text \<open>
  Lines 549 to 557: the first lot with the id \<open>openOrder.tradeid\<close> loses the leg of the
  cancelled order, and its \<open>protect\<close> object when no leg is left. Reading a property
  of a missing \<open>protect\<close> faults.
\<close>

fun unprotect :: "order \<Rightarrow> trade list \<Rightarrow> error + trade list" where
  "unprotect openOrder [] = Inr []"
| "unprotect openOrder (trade # ts) =
     (if t_id trade = o_tradeid openOrder then
        (case t_protect trade of
           None \<Rightarrow> Inl TypeError
         | Some p \<Rightarrow>
             let p' = (if truthy (o_stop openOrder) then p\<lparr>pr_stop := None\<rparr>
                       else if truthy (o_limit openOrder) then p\<lparr>pr_limit := None\<rparr>
                       else p)
             in Inr (trade\<lparr>t_protect :=
                             (if \<not> truthy (pr_stop p') \<and> \<not> truthy (pr_limit p')
                              then None else Some p')\<rparr> # ts))
      else (case unprotect openOrder ts of
              Inl e \<Rightarrow> Inl e
            | Inr ts' \<Rightarrow> Inr (trade # ts')))"

text \<open>The inner loop over the open orders of one symbol, with the lots of that symbol.\<close>

fun cancel_orders ::
  "(string \<Rightarrow> bool) \<Rightarrow> string option \<Rightarrow> trade list option \<Rightarrow> order list
   \<Rightarrow> error + (order list \<times> trade list option)" where
  "cancel_orders isOne oid tso [] = Inr ([], tso)"
| "cancel_orders isOne oid tso (openOrder # os) =
     (if oid = o_id openOrder then
        (case (if truthy_str (o_tradeid openOrder)
               then (case tso of
                       None \<Rightarrow> Inr None
                     | Some ts \<Rightarrow> map_sum id Some (unprotect openOrder ts))
               else Inr tso) of
           Inl e \<Rightarrow> Inl e
         | Inr tso' \<Rightarrow> cancel_orders isOne oid tso' os)
      else
        (case cancel_orders isOne oid tso os of
           Inl e \<Rightarrow> Inl e
         | Inr (os', tso') \<Rightarrow>
             Inr ((if id_eq_oco isOne oid (o_oco openOrder)
                   then openOrder\<lparr>o_oco := OcoNull\<rparr> else openOrder) # os', tso')))"

text \<open>The outer loop over the symbols of \<open>openOrders\<close>.\<close>

fun cancel_symbols ::
  "(string \<Rightarrow> bool) \<Rightarrow> string option \<Rightarrow> (string \<rightharpoonup> trade list)
   \<Rightarrow> (string \<times> order list) list
   \<Rightarrow> error + ((string \<times> order list) list \<times> (string \<rightharpoonup> trade list))" where
  "cancel_symbols isOne oid tr [] = Inr ([], tr)"
| "cancel_symbols isOne oid tr ((symbol, os) # rest) =
     (case cancel_orders isOne oid (tr symbol) os of
        Inl e \<Rightarrow> Inl e
      | Inr (os', tso) \<Rightarrow>
          (case cancel_symbols isOne oid (tr(symbol := tso)) rest of
             Inl e \<Rightarrow> Inl e
           | Inr (rest', tr') \<Rightarrow> Inr ((symbol, os') # rest', tr')))"

definition cancelOrder ::
  "(string \<Rightarrow> bool) \<Rightarrow> order \<Rightarrow> account \<Rightarrow> error + (account \<times> cb_call list)" where
  "cancelOrder isOne order s =
     (case cancel_symbols isOne (o_id order) (trades s) (openOrders s) of
        Inl e \<Rightarrow> Inl e
      | Inr (oo, tr) \<Rightarrow> Inr (s\<lparr>openOrders := oo, trades := tr\<rparr>, [[]]))"

subsection \<open>STX.Account.Demo.prototype.replaceOrder\<close>

text \<open>
  The replace order as \<open>STX.TFC.prototype.createReplaceFromGUI\<close> builds it: an id and
  one \<open>{old, new}\<close> tuple for each of limit, stop, tif, quantity and oto, of which
  \<open>replaceOrder\<close> reads the \<open>new\<close> halves.
\<close>

record replace_order =
  r_id :: "string option"
  r_limit_new :: "rat option"
  r_stop_new :: "rat option"
  r_tif_new :: "string option"
  r_quantity_new :: rat
  r_oto_new :: "oto_order list option"

definition apply_replace :: "replace_order \<Rightarrow> order \<Rightarrow> order" where
  "apply_replace r openOrder =
     openOrder\<lparr>o_limit := r_limit_new r, o_stop := r_stop_new r, o_tif := r_tif_new r,
               o_quantity := r_quantity_new r, o_oto := r_oto_new r\<rparr>"

text \<open>Lines 584 to 591: the first lot with the id \<open>openOrder.tradeid\<close> takes the new price.\<close>

fun reprotect :: "order \<Rightarrow> trade list \<Rightarrow> error + trade list" where
  "reprotect openOrder [] = Inr []"
| "reprotect openOrder (trade # ts) =
     (if t_id trade = o_tradeid openOrder then
        (if truthy (o_stop openOrder) then
           (case t_protect trade of
              None \<Rightarrow> Inl TypeError
            | Some p \<Rightarrow> Inr (trade\<lparr>t_protect := Some (p\<lparr>pr_stop := o_stop openOrder\<rparr>)\<rparr> # ts))
         else if truthy (o_limit openOrder) then
           (case t_protect trade of
              None \<Rightarrow> Inl TypeError
            | Some p \<Rightarrow> Inr (trade\<lparr>t_protect := Some (p\<lparr>pr_limit := o_limit openOrder\<rparr>)\<rparr> # ts))
         else Inr (trade # ts))
      else (case reprotect openOrder ts of
              Inl e \<Rightarrow> Inl e
            | Inr ts' \<Rightarrow> Inr (trade # ts')))"

text \<open>
  The inner loop: the list with its first matching order replaced, and that order;
  \<open>None\<close> when no order of the list has the id.
\<close>

fun replace_orders :: "replace_order \<Rightarrow> order list \<Rightarrow> (order list \<times> order) option" where
  "replace_orders r [] = None"
| "replace_orders r (openOrder # os) =
     (if r_id r = o_id openOrder
      then Some (apply_replace r openOrder # os, apply_replace r openOrder)
      else (case replace_orders r os of
              None \<Rightarrow> None
            | Some (os', u) \<Rightarrow> Some (openOrder # os', u)))"

text \<open>
  The outer loop: \<open>None\<close> when it runs to its end without a match, which is where the
  function returns without having called \<open>cb\<close>.
\<close>

fun replace_symbols ::
  "replace_order \<Rightarrow> (string \<rightharpoonup> trade list) \<Rightarrow> (string \<times> order list) list
   \<Rightarrow> (error + ((string \<times> order list) list \<times> (string \<rightharpoonup> trade list))) option" where
  "replace_symbols r tr [] = None"
| "replace_symbols r tr ((symbol, os) # rest) =
     (case replace_orders r os of
        Some (os', u) \<Rightarrow>
          Some (if truthy_str (o_tradeid u) then
                  (case tr symbol of
                     None \<Rightarrow> Inr ((symbol, os') # rest, tr)
                   | Some ts \<Rightarrow>
                       (case reprotect u ts of
                          Inl e \<Rightarrow> Inl e
                        | Inr ts' \<Rightarrow> Inr ((symbol, os') # rest, tr(symbol \<mapsto> ts'))))
                else Inr ((symbol, os') # rest, tr))
      | None \<Rightarrow>
          (case replace_symbols r tr rest of
             None \<Rightarrow> None
           | Some (Inl e) \<Rightarrow> Some (Inl e)
           | Some (Inr (rest', tr')) \<Rightarrow> Some (Inr ((symbol, os) # rest', tr'))))"

definition replaceOrder :: "replace_order \<Rightarrow> account \<Rightarrow> error + (account \<times> cb_call list)" where
  "replaceOrder r s =
     (case replace_symbols r (trades s) (openOrders s) of
        None \<Rightarrow> Inr (s, [])
      | Some (Inl e) \<Rightarrow> Inl e
      | Some (Inr (oo, tr)) \<Rightarrow> Inr (s\<lparr>openOrders := oo, trades := tr\<rparr>, [[]]))"

subsection \<open>STX.Account.Demo.prototype.setProtection and closePosition\<close>

definition setProtection :: "order list \<Rightarrow> account \<Rightarrow> error + (account \<times> cb_call list)" where
  "setProtection orders s =
     Inr (s, [[ArgNull,
               ArgIds (map (\<lambda>x. key_of (o_tradeid x)
                                  @ (if truthy (o_limit x) then ''|L'' else ''|S'')) orders)]])"

text \<open>
  \<open>closePosition\<close> reads \<open>trades.length\<close> first, which faults when the symbol has no
  lots. Otherwise the open orders that protect a lot of the symbol go, then the lots
  and the position.
\<close>

definition closePosition :: "position \<Rightarrow> account \<Rightarrow> error + (account \<times> cb_call list)" where
  "closePosition position s =
     (let k = key_of (p_symbol position) in
      case trades s k of
        None \<Rightarrow> Inl TypeError
      | Some ts \<Rightarrow>
          Inr (s\<lparr>openOrders :=
                    AList.map_entry k
                      (\<lambda>os. foldl (\<lambda>os t. filter (\<lambda>x. o_tradeid x \<noteq> t_id t) os) os ts)
                      (openOrders s),
                  trades := (trades s)(k := None),
                  positions := (positions s)(k := None)\<rparr>,
               [[]]))"

subsection \<open>Quantities of a symbol\<close>

text \<open>
  The quantity of \<open>positions[symbol]\<close>, 0 without a position, and the signed sum of the
  quantities of \<open>trades[symbol]\<close>, 0 without a list.
\<close>

definition position_quantity :: "account \<Rightarrow> string \<Rightarrow> rat" where
  "position_quantity s symbol = (case positions s symbol of None \<Rightarrow> 0 | Some p \<Rightarrow> p_quantity p)"

definition trades_of :: "account \<Rightarrow> string \<Rightarrow> trade list" where
  "trades_of s symbol = (case trades s symbol of None \<Rightarrow> [] | Some ts \<Rightarrow> ts)"

definition trades_quantity :: "account \<Rightarrow> string \<Rightarrow> rat" where
  "trades_quantity s symbol = sum_list (map t_quantity (trades_of s symbol))"

text \<open>
  The same sum as a JavaScript loop over the lots would compute it, every addition
  rounded to a double.
\<close>

definition trades_quantity_fl :: "account \<Rightarrow> string \<Rightarrow> rat" where
  "trades_quantity_fl s symbol = foldl (\<lambda>a t. fl (a + t_quantity t)) 0 (trades_of s symbol)"

text \<open>A whole number, and the sum of the magnitudes of the lots of a symbol.\<close>

definition whole :: "rat \<Rightarrow> bool" where
  "whole x = (of_int \<lfloor>x\<rfloor> = x)"

definition trades_magnitude :: "account \<Rightarrow> string \<Rightarrow> rat" where
  "trades_magnitude s symbol = sum_list (map (\<lambda>t. \<bar>t_quantity t\<bar>) (trades_of s symbol))"


text \<open>
  The first lot of a list with a given id exists and has no \<open>protect\<close> object.
\<close>

definition lacks_protect :: "trade list \<Rightarrow> string option \<Rightarrow> bool" where
  "lacks_protect ts tradeid =
     (case find (\<lambda>t. t_id t = tradeid) ts of None \<Rightarrow> False | Some t \<Rightarrow> t_protect t = None)"

subsection \<open>The demo data of the constructor\<close>

text \<open>
  A numeric literal of the source denotes the double nearest to its decimal value. The
  quantities, limits and stops of the demo data are whole numbers, which are doubles;
  the prices have decimals and are rounded.
\<close>

definition mk_position :: "rat \<Rightarrow> rat \<Rightarrow> rat \<Rightarrow> rat \<Rightarrow> position" where
  "mk_position q b p c =
     \<lparr>p_symbol = None, p_quantity = q, p_basis = Number (fl b), p_price = fl p,
      p_prevClose = fl c, p_currency = Some ''USD''\<rparr>"

definition mk_trade :: "string \<Rightarrow> int \<Rightarrow> rat \<Rightarrow> rat \<Rightarrow> rat \<Rightarrow> protect option \<Rightarrow> trade" where
  "mk_trade i tm q b p pr =
     \<lparr>t_id = Some i, t_time = tm, t_quantity = q, t_basis = fl b, t_price = fl p,
      t_currency = Some ''USD'', t_protect = pr\<rparr>"

definition mk_order ::
  "string \<Rightarrow> string option \<Rightarrow> string \<Rightarrow> rat \<Rightarrow> rat option \<Rightarrow> rat option \<Rightarrow> string \<Rightarrow> oco
   \<Rightarrow> order" where
  "mk_order i tid a q l st tf oc =
     \<lparr>o_id = Some i, o_tradeid = tid, o_symbol = None, o_action = a, o_quantity = q,
      o_limit = l, o_stop = st, o_marketIfTouched = None, o_tif = Some tf,
      o_currency = Some ''USD'', o_oco = oc, o_oto = None, o_vspId = None\<rparr>"

definition mk_oto :: "string \<Rightarrow> rat option \<Rightarrow> rat option \<Rightarrow> oco \<Rightarrow> oto_order" where
  "mk_oto i l st oc =
     \<lparr>c_id = Some i, c_symbol = None, c_action = ''sell'', c_quantity = 100, c_limit = l,
      c_stop = st, c_tif = Some ''GTC'', c_oco = oc\<rparr>"

definition demo_positions :: "string \<rightharpoonup> position" where
  "demo_positions =
     [''IBM'' \<mapsto> mk_position 1000 (12613 / 100) (12913 / 100) (12313 / 100),
      ''GE'' \<mapsto> mk_position 100 (2611 / 100) (2411 / 100) (2611 / 100),
      ''SPY'' \<mapsto> mk_position (- 1000) (18711 / 100) (18711 / 100) (19011 / 100),
      ''LNKD'' \<mapsto> mk_position (- 100) 230 186 240]"

definition demo_trades :: "string \<rightharpoonup> trade list" where
  "demo_trades =
     [''IBM'' \<mapsto>
        [mk_trade ''IBM001'' 1366206180000 300 (12413 / 100) (12913 / 100)
           (Some \<lparr>pr_limit = Some 165, pr_stop = Some 135\<rparr>),
         mk_trade ''IBM002'' 1366910520000 600 (12713 / 100) (12913 / 100) None,
         mk_trade ''IBM003'' 1407181680000 100 (12613 / 100) (12913 / 100) None],
      ''GE'' \<mapsto>
        [mk_trade ''GE001'' 1433779740000 100 (2611 / 100) (2411 / 100)
           (Some \<lparr>pr_limit = Some 30, pr_stop = Some 25\<rparr>)],
      ''SPY'' \<mapsto>
        [mk_trade ''SPY001'' 1419262080000 (- 700) (19045 / 100) (18711 / 100) None,
         mk_trade ''SPY002'' 1419262380000 (- 300) (17932 / 100) (18711 / 100) None],
      ''LNKD'' \<mapsto> [mk_trade ''LNKD001'' 1420740540000 (- 100) 230 186 None]]"

definition demo_openOrders :: "(string \<times> order list) list" where
  "demo_openOrders =
     [(''IBM'',
       [mk_order ''1'' None ''sell'' 500 (Some 197) None ''GTC'' OcoAbsent,
        (mk_order ''2'' None ''sell'' 500 (Some 196) None ''GTC'' OcoAbsent)
          \<lparr>o_vspId := Some ''IBM002''\<rparr>,
        mk_order ''9'' (Some ''IBM001'') ''sell'' 300 (Some 165) None ''GTC'' (OcoId ''10''),
        mk_order ''10'' (Some ''IBM001'') ''sell'' 300 None (Some 135) ''GTC'' (OcoId ''9'')]),
      (''TSLA'', [mk_order ''3'' None ''buy'' 10 (Some 170) None ''DAY'' OcoAbsent]),
      (''GE'',
       [mk_order ''4'' (Some ''GE001'') ''sell'' 100 (Some 30) None ''GTC'' (OcoId ''5''),
        mk_order ''5'' (Some ''GE001'') ''sell'' 100 None (Some 25) ''GTC'' (OcoId ''4'')]),
      (''LNKD'',
       [(mk_order ''6'' None ''buy'' 100 (Some 112) None ''DAY'' OcoAbsent)
          \<lparr>o_oto := Some [mk_oto ''7'' (Some 130) None (OcoId ''8''),
                          mk_oto ''8'' None (Some 110) (OcoId ''7'')]\<rparr>,
        (mk_order ''9'' None ''buy'' 100 (Some 112) None ''DAY'' OcoAbsent)
          \<lparr>o_oto := Some [mk_oto ''10'' (Some 130) None OcoTrue]\<rparr>])]"

text \<open>The demo account as constructed: \<open>balances\<close> is the empty object until fetched.\<close>

definition demo :: account where
  "demo =
     \<lparr>balances = \<lparr>liquidity = None, cash = None, unsettledCash = None, profitLoss = None,
                   buyingPower = None\<rparr>,
      openOrders = demo_openOrders, positions = demo_positions, trades = demo_trades\<rparr>"

subsection \<open>Inputs of the examples\<close>

text \<open>A replace order for an id that no open order of the demo account has.\<close>

definition unknown_replace :: replace_order where
  "unknown_replace =
     \<lparr>r_id = Some ''unknown'', r_limit_new = Some 200, r_stop_new = None,
      r_tif_new = Some ''GTC'', r_quantity_new = 500, r_oto_new = None\<rparr>"

text \<open>The position objects the order ticket hands to \<open>closePosition\<close>, with the symbol set.\<close>

definition tsla_position :: position where
  "tsla_position = (mk_position 10 170 170 170)\<lparr>p_symbol := Some ''TSLA''\<rparr>"

definition ge_position :: position where
  "ge_position =
     (mk_position 100 (2611 / 100) (2411 / 100) (2611 / 100))\<lparr>p_symbol := Some ''GE''\<rparr>"

text \<open>Two ids as \<open>STX.uniqueID\<close> could return them, and orders for a symbol without position.\<close>

definition ids :: "nat \<Rightarrow> string" where
  "ids n = (if n = 0 then ''K3X0'' else ''K3X1'')"

definition ids2 :: "nat \<Rightarrow> string" where
  "ids2 n = (if n = 0 then ''K3X2'' else ''K3X3'')"

definition ids3 :: "nat \<Rightarrow> string" where
  "ids3 n = (if n = 0 then ''K3X4'' else ''K3X5'')"

definition blank_order :: "string \<Rightarrow> string \<Rightarrow> rat \<Rightarrow> order" where
  "blank_order symbol action quantity =
     \<lparr>o_id = None, o_tradeid = None, o_symbol = Some symbol, o_action = action,
      o_quantity = quantity, o_limit = None, o_stop = None, o_marketIfTouched = None,
      o_tif = Some ''DAY'', o_currency = None, o_oco = OcoAbsent, o_oto = None,
      o_vspId = None\<rparr>"

definition mit_order :: order where
  "mit_order = (blank_order ''AAPL'' ''buy'' 10)\<lparr>o_marketIfTouched := Some 120\<rparr>"

definition limit_order :: order where
  "limit_order = (blank_order ''AAPL'' ''buy'' 10)\<lparr>o_limit := Some 120\<rparr>"

text \<open>A market sell of 400 IBM, which closes the first lot and a part of the second.\<close>

definition sell_ibm :: order where
  "sell_ibm = blank_order ''IBM'' ''sell'' 400"

text \<open>
  A market sell of the whole GE position, and market buys of TSLA, a symbol that has an
  open order and no position.
\<close>

definition sell_ge :: order where
  "sell_ge = blank_order ''GE'' ''sell'' 100"

definition buy_tsla :: "rat \<Rightarrow> order" where
  "buy_tsla q = blank_order ''TSLA'' ''buy'' q"

definition sell_tsla :: "rat \<Rightarrow> order" where
  "sell_tsla q = blank_order ''TSLA'' ''sell'' q"


text \<open>
  The open order with id 9 of the demo data, as the order ticket hands it to
  \<open>cancelOrder\<close>; the first IBM lot; and the demo account with that lot as its only
  IBM lot and without its \<open>protect\<close> object.
\<close>

definition order_9 :: order where
  "order_9 = mk_order ''9'' (Some ''IBM001'') ''sell'' 300 (Some 165) None ''GTC'' (OcoId ''10'')"

definition ibm001 :: trade where
  "ibm001 = mk_trade ''IBM001'' 1366206180000 300 (12413 / 100) (12913 / 100)
              (Some \<lparr>pr_limit = Some 165, pr_stop = Some 135\<rparr>)"

definition demo_bare :: account where
  "demo_bare = demo\<lparr>trades := (trades demo)(''IBM'' \<mapsto> [ibm001\<lparr>t_protect := None\<rparr>])\<rparr>"

section \<open>Properties\<close>

lemmas demo_defs = demo_def demo_openOrders_def demo_positions_def demo_trades_def
  mk_position_def mk_trade_def mk_order_def mk_oto_def

subsection \<open>Rounding to a double\<close>

declare bits.simps [simp del]

lemma bits_bounds: "0 < n \<Longrightarrow> 2 ^ (bits n - 1) \<le> n \<and> n < 2 ^ bits n"
proof (induction n rule: bits.induct)
  case (1 n)
  show ?case
  proof (cases "n div 2 = 0")
    case True
    with "1.prems" have "n = 1" by (simp add: div_eq_0_iff)
    then show ?thesis by (simp add: bits.simps)
  next
    case False
    with "1.IH" "1.prems" have ih: "2 ^ (bits (n div 2) - 1) \<le> n div 2" "n div 2 < 2 ^ bits (n div 2)"
      by simp_all
    from False have pos: "0 < bits (n div 2)" by (subst bits.simps) simp
    have b: "bits n = Suc (bits (n div 2))"
      using "1.prems" by (subst bits.simps) simp
    from ih(1) pos have "2 ^ bits (n div 2) \<le> 2 * (n div 2)"
      by (cases "bits (n div 2)") simp_all
    then have lo: "2 ^ (bits n - 1) \<le> n" using b by simp
    from ih(2) have "n < 2 * 2 ^ bits (n div 2)" by linarith
    with lo b show ?thesis by simp
  qed
qed

lemma powi_diff_nat: "(2::rat) powi (int m - int n) = 2 ^ m / 2 ^ n"
  by (simp add: power_int_diff)

lemma expo_bounds:
  assumes "x \<noteq> 0"
  shows "2 powi (expo x) \<le> \<bar>x\<bar>" and "\<bar>x\<bar> < 2 powi (expo x + 1)"
proof -
  obtain a b where q: "quotient_of \<bar>x\<bar> = (a, b)" by (cases "quotient_of \<bar>x\<bar>")
  then have b: "0 < b" and x: "\<bar>x\<bar> = of_int a / of_int b"
    by (simp_all add: quotient_of_denom_pos quotient_of_div)
  from assms have "0 < \<bar>x\<bar>" by simp
  with x b have a: "0 < a" by (simp add: zero_less_divide_iff)
  define ba where "ba = bits (nat a)"
  define bb where "bb = bits (nat b)"
  define d where "d = int ba - int bb"
  have e: "expo x = (if 2 powi d \<le> \<bar>x\<bar> then d else d - 1)"
    by (simp add: expo_def q ba_def bb_def d_def Let_def)
  from bits_bounds [of "nat a"] a have "2 ^ (ba - 1) \<le> nat a" "nat a < 2 ^ ba"
    by (simp_all add: ba_def)
  then have "(2::rat) ^ (ba - 1) \<le> of_nat (nat a)" "(of_nat (nat a) :: rat) < 2 ^ ba"
    by (metis of_nat_le_iff of_nat_numeral of_nat_power, metis of_nat_less_iff of_nat_numeral of_nat_power)
  with a have A: "(2::rat) ^ (ba - 1) \<le> of_int a" "(of_int a :: rat) < 2 ^ ba"
    by simp_all
  from bits_bounds [of "nat b"] b have "2 ^ (bb - 1) \<le> nat b" "nat b < 2 ^ bb"
    by (simp_all add: bb_def)
  then have "(2::rat) ^ (bb - 1) \<le> of_nat (nat b)" "(of_nat (nat b) :: rat) < 2 ^ bb"
    by (metis of_nat_le_iff of_nat_numeral of_nat_power, metis of_nat_less_iff of_nat_numeral of_nat_power)
  with b have B: "(2::rat) ^ (bb - 1) \<le> of_int b" "(of_int b :: rat) < 2 ^ bb"
    by simp_all
  have ba1: "1 \<le> ba" using A(2) a by (cases ba) simp_all
  have bb1: "1 \<le> bb" using B(2) b by (cases bb) simp_all
  have Bpos: "(0::rat) < of_int b" using b by simp
  have Apos: "(0::rat) < of_int a" using a by simp
  have up: "\<bar>x\<bar> < 2 powi (d + 1)"
  proof -
    have "2 powi (d + 1) = (2::rat) ^ ba / 2 ^ (bb - 1)"
      using bb1 powi_diff_nat [of ba "bb - 1"] by (simp add: d_def of_nat_diff algebra_simps)
    moreover have "of_int a / of_int b < (2::rat) ^ ba / 2 ^ (bb - 1)"
      using A(2) B(1) Apos Bpos by (simp add: frac_less)
    ultimately show ?thesis using x by simp
  qed
  have lo: "2 powi (d - 1) < \<bar>x\<bar>"
  proof -
    have "2 powi (d - 1) = (2::rat) ^ (ba - 1) / 2 ^ bb"
      using ba1 powi_diff_nat [of "ba - 1" bb] by (simp add: d_def of_nat_diff algebra_simps)
    moreover have "(2::rat) ^ (ba - 1) / 2 ^ bb < of_int a / of_int b"
      using A(1) B(2) Apos Bpos by (simp add: frac_less2)
    ultimately show ?thesis using x by simp
  qed
  show "2 powi (expo x) \<le> \<bar>x\<bar>"
    using lo e by (simp split: if_splits)
  show "\<bar>x\<bar> < 2 powi (expo x + 1)"
    using up e by (auto split: if_splits simp: not_le)
qed

lemma powi_less_imp: "(2::rat) powi a < 2 powi b \<Longrightarrow> a < b"
proof (rule ccontr)
  assume l: "(2::rat) powi a < 2 powi b" and "\<not> a < b"
  then have "b \<le> a" by simp
  then have "(2::rat) powi b \<le> 2 powi a" by (rule power_int_increasing) simp
  with l show False by simp
qed

lemma powi_le_imp: "(2::rat) powi a \<le> 2 powi b \<Longrightarrow> a \<le> b"
proof (rule ccontr)
  assume l: "(2::rat) powi a \<le> 2 powi b" and "\<not> a \<le> b"
  then have "b < a" by simp
  then have "(2::rat) powi b < 2 powi a" by (rule power_int_strict_increasing) simp
  with l show False by simp
qed

lemma expo_unique:
  assumes "2 powi e \<le> \<bar>x\<bar>" and "\<bar>x\<bar> < 2 powi (e + 1)"
  shows "expo x = e"
proof -
  have "(0::rat) < 2 powi e" by simp
  with assms(1) have "0 < \<bar>x\<bar>" by linarith
  then have nz: "x \<noteq> 0" by simp
  note b = expo_bounds [OF nz]
  from b(1) assms(2) have "(2::rat) powi (expo x) < 2 powi (e + 1)" by linarith
  then have "expo x < e + 1" by (rule powi_less_imp)
  moreover from b(2) assms(1) have "(2::rat) powi e < 2 powi (expo x + 1)" by linarith
  then have "e < expo x + 1" by (rule powi_less_imp)
  ultimately show ?thesis by linarith
qed

lemma roundHalfEven_of_int: "roundHalfEven (of_int k) = k"
  by (simp add: roundHalfEven_def)

lemma roundHalfEven_eqI:
  assumes "\<bar>m - of_int k\<bar> < 1 / 2"
  shows "roundHalfEven m = k"
proof (cases "of_int k \<le> m")
  case True
  from assms have "m < of_int k + 1 / 2" by linarith
  with True have f: "\<lfloor>m\<rfloor> = k" by (intro floor_unique) linarith+
  from assms True have "m - of_int k < 1 / 2" by linarith
  with f show ?thesis by (simp add: roundHalfEven_def)
next
  case False
  from assms have lo: "of_int k - 1 / 2 < m" by linarith
  have "of_int (k - 1) \<le> m" "m < of_int (k - 1) + 1"
    using lo False by simp_all
  then have f: "\<lfloor>m\<rfloor> = k - 1" by (rule floor_unique)
  from lo have "1 / 2 < m - of_int (k - 1)" by simp
  with f show ?thesis by (simp add: roundHalfEven_def)
qed

lemma roundHalfEven_near: "\<bar>of_int (roundHalfEven m) - m\<bar> \<le> 1 / 2"
proof -
  have "of_int \<lfloor>m\<rfloor> \<le> m" "m < of_int \<lfloor>m\<rfloor> + 1" by linarith+
  then show ?thesis
    by (auto simp: roundHalfEven_def Let_def abs_le_iff)
qed

lemma fl_0: "fl 0 = 0"
  by (simp add: fl_def)

lemma fl_eq_0_iff: "fl x = 0 \<longleftrightarrow> x = 0"
proof
  assume z: "fl x = 0"
  show "x = 0"
  proof (rule ccontr)
    assume nz: "x \<noteq> 0"
    define u :: rat where "u = 2 powi (expo x - 52)"
    define y where "y = x / u"
    have u: "0 < u" by (simp add: u_def)
    from z nz u have r: "roundHalfEven y = 0"
      by (simp add: fl_def u_def y_def Let_def)
    have "2 powi (expo x) = 2 ^ 52 * u"
      by (simp add: u_def power_int_diff)
    with expo_bounds(1) [OF nz] have "2 ^ 52 * u \<le> \<bar>x\<bar>" by simp
    with u have "2 ^ 52 \<le> \<bar>x\<bar> / u" by (simp add: pos_le_divide_eq)
    also have "\<bar>x\<bar> / u = \<bar>y\<bar>" using u by (simp add: y_def)
    finally have big: "2 ^ 52 \<le> \<bar>y\<bar>" .
    from roundHalfEven_near [of y] have "\<bar>of_int 0 - y\<bar> \<le> 1 / 2" unfolding r .
    then have "\<bar>y\<bar> \<le> 1 / 2" by simp
    with big show False by simp
  qed
next
  assume "x = 0"
  then show "fl x = 0" by (simp add: fl_def)
qed

lemma fl_eqI:
  assumes "2 ^ 52 * 2 powi k \<le> \<bar>x\<bar>" and "\<bar>x\<bar> < 2 ^ 53 * 2 powi k"
    and "\<bar>x - of_int m * 2 powi k\<bar> < 2 powi k / 2"
  shows "fl x = of_int m * 2 powi k"
proof -
  define u :: rat where "u = 2 powi k"
  have u: "0 < u" by (simp add: u_def)
  have p: "(2::rat) powi (k + 52) = 2 ^ 52 * 2 powi k"
    "(2::rat) powi (k + 52 + 1) = 2 ^ 53 * 2 powi k"
    by (simp_all add: power_int_add)
  have "2 powi (k + 52) \<le> \<bar>x\<bar>" unfolding p by (rule assms(1))
  moreover have "\<bar>x\<bar> < 2 powi (k + 52 + 1)" unfolding p by (rule assms(2))
  ultimately have e: "expo x = k + 52" by (rule expo_unique)
  have "0 < 2 ^ 52 * u" using u by simp
  with assms(1) have "0 < \<bar>x\<bar>" unfolding u_def by linarith
  then have nz: "x \<noteq> 0" by simp
  from assms(3) have "\<bar>x - of_int m * u\<bar> < u / 2" by (simp add: u_def)
  then have "\<bar>x - of_int m * u\<bar> / u < 1 / 2" using u by (simp add: pos_divide_less_eq)
  moreover have "x / u - of_int m = (x - of_int m * u) / u"
    using u by (simp add: field_simps)
  then have "\<bar>x / u - of_int m\<bar> = \<bar>x - of_int m * u\<bar> / u"
    by (simp only: abs_divide abs_of_pos [OF u])
  ultimately have "\<bar>x / u - of_int m\<bar> < 1 / 2" by simp
  then have "roundHalfEven (x / u) = m" by (rule roundHalfEven_eqI)
  with nz e show ?thesis by (simp add: fl_def u_def Let_def)
qed

lemma roundHalfEven_tie:
  assumes "\<bar>m - of_int k\<bar> = 1 / 2" and "even k"
  shows "roundHalfEven m = k"
proof (cases "of_int k \<le> m")
  case True
  with assms(1) have m: "m = of_int k + 1 / 2" by linarith
  have f: "\<lfloor>m\<rfloor> = k" unfolding m by (intro floor_unique) linarith+
  have "m - of_int k = 1 / 2" unfolding m by simp
  with f assms(2) show ?thesis by (simp add: roundHalfEven_def)
next
  case False
  with assms(1) have m: "m = of_int (k - 1) + 1 / 2" by simp
  have f: "\<lfloor>m\<rfloor> = k - 1" unfolding m by (intro floor_unique) linarith+
  have r: "m - of_int (k - 1) = 1 / 2" unfolding m by simp
  from assms(2) have "odd (k - 1)" by simp
  with f r show ?thesis by (simp add: roundHalfEven_def)
qed

lemma fl_tieI:
  assumes "2 ^ 52 * 2 powi k \<le> \<bar>x\<bar>" and "\<bar>x\<bar> < 2 ^ 53 * 2 powi k"
    and "\<bar>x - of_int m * 2 powi k\<bar> = 2 powi k / 2" and "even m"
  shows "fl x = of_int m * 2 powi k"
proof -
  define u :: rat where "u = 2 powi k"
  have u: "0 < u" by (simp add: u_def)
  have p: "(2::rat) powi (k + 52) = 2 ^ 52 * 2 powi k"
    "(2::rat) powi (k + 52 + 1) = 2 ^ 53 * 2 powi k"
    by (simp_all add: power_int_add)
  have "2 powi (k + 52) \<le> \<bar>x\<bar>" unfolding p by (rule assms(1))
  moreover have "\<bar>x\<bar> < 2 powi (k + 52 + 1)" unfolding p by (rule assms(2))
  ultimately have e: "expo x = k + 52" by (rule expo_unique)
  have "0 < 2 ^ 52 * u" using u by simp
  with assms(1) have "0 < \<bar>x\<bar>" unfolding u_def by linarith
  then have nz: "x \<noteq> 0" by simp
  from assms(3) have "\<bar>x - of_int m * u\<bar> = u / 2" by (simp add: u_def)
  then have "\<bar>x - of_int m * u\<bar> / u = 1 / 2" using u by simp
  moreover have "x / u - of_int m = (x - of_int m * u) / u"
    using u by (simp add: field_simps)
  then have "\<bar>x / u - of_int m\<bar> = \<bar>x - of_int m * u\<bar> / u"
    by (simp only: abs_divide abs_of_pos [OF u])
  ultimately have "\<bar>x / u - of_int m\<bar> = 1 / 2" by simp
  then have "roundHalfEven (x / u) = m" using assms(4) by (rule roundHalfEven_tie)
  with nz e show ?thesis by (simp add: fl_def u_def Let_def)
qed

lemma fl_exact:
  assumes "x \<noteq> 0" and "x / 2 powi (expo x - 52) = of_int j"
  shows "fl x = x"
proof -
  have "x = of_int j * 2 powi (expo x - 52)"
    using assms(2) by (simp add: field_simps)
  with assms show ?thesis by (simp add: fl_def Let_def roundHalfEven_of_int)
qed

lemma fl_of_int:
  assumes "\<bar>n\<bar> \<le> 2 ^ 53"
  shows "fl (of_int n) = of_int n"
proof (cases "n = 0")
  case True
  then show ?thesis by (simp add: fl_0)
next
  case False
  define x :: rat where "x = of_int n"
  define e where "e = expo x"
  from False have nz: "x \<noteq> 0" by (simp add: x_def)
  note b = expo_bounds [OF nz, folded e_def]
  have ax: "\<bar>x\<bar> = of_int \<bar>n\<bar>" by (simp add: x_def)
  from False have "1 \<le> \<bar>n\<bar>" by simp
  then have "(1::rat) \<le> of_int \<bar>n\<bar>" by (metis of_int_1_le_iff)
  with b(2) have "(2::rat) powi 0 < 2 powi (e + 1)" unfolding ax by simp
  then have "0 < e + 1" by (rule powi_less_imp)
  then have e0: "0 \<le> e" by simp
  from assms have "(of_int \<bar>n\<bar> :: rat) \<le> of_int (2 ^ 53)" by (simp only: of_int_le_iff)
  then have le: "\<bar>x\<bar> \<le> 2 ^ 53" unfolding ax by simp
  with b(1) have "(2::rat) powi e \<le> 2 powi 53" by simp
  then have e53: "e \<le> 53" by (rule powi_le_imp)
  have "\<exists>j. x / 2 powi (e - 52) = of_int j"
  proof (cases "e \<le> 52")
    case True
    then obtain i where i: "e - 52 = - int i" using e0
      by (metis add.inverse_inverse diff_ge_0_iff_ge minus_diff_eq nonneg_int_cases)
    have "x / 2 powi (- int i) = of_int (n * 2 ^ i)"
      by (simp add: x_def power_int_minus field_simps)
    then have "x / 2 powi (e - 52) = of_int (n * 2 ^ i)"
      unfolding i .
    then show ?thesis ..
  next
    case False
    with e53 have e: "e = 53" by simp
    with b(1) le have "\<bar>x\<bar> = 2 ^ 53" by simp
    then have "\<bar>n\<bar> = 2 ^ 53" unfolding ax
      by (metis of_int_eq_iff of_int_numeral of_int_power)
    then have "n = 9007199254740992 \<or> n = - 9007199254740992" by (simp add: abs_if split: if_splits)
    then have "n = 2 * (n div 2)" by auto
    then have "x = 2 * of_int (n div 2)"
      unfolding x_def by (metis of_int_mult of_int_numeral)
    then have "x / 2 powi 1 = of_int (n div 2)" by simp
    moreover have "e - 52 = 1" using e by simp
    ultimately have "x / 2 powi (e - 52) = of_int (n div 2)" by simp
    then show ?thesis ..
  qed
  then obtain j where "x / 2 powi (expo x - 52) = of_int j" unfolding e_def by blast
  from fl_exact [OF nz this] show ?thesis by (simp add: x_def)
qed

lemma fl_numeral: "numeral k \<le> (9007199254740992::int) \<Longrightarrow> fl (numeral k) = numeral k"
  using fl_of_int [of "numeral k"] by simp

lemma fl_neg_numeral:
  "numeral k \<le> (9007199254740992::int) \<Longrightarrow> fl (- numeral k) = - numeral k"
  using fl_of_int [of "- numeral k"] by simp

lemma fl_1: "fl 1 = 1"
  using fl_of_int [of 1] by simp

lemmas fl_simps = fl_0 fl_1 fl_numeral fl_neg_numeral

subsection \<open>Tradability\<close>

text \<open>
  C8, as stated: a symbol is reported not tradable exactly when it is absent, contains
  \<open>$\<close>, or has 7 characters and contains \<open>^\<close>. The code treats a 7-character symbol
  with \<open>^\<close> as a forex pair and reports it tradable, so the statement fails at
  \<open>^EURUSD\<close>.
\<close>

theorem tradability_claim_counterexample:
  "length ''^EURUSD'' = 7 \<and> CHR ''^'' \<in> set ''^EURUSD''
   \<and> tradable (tradability (Some ''^EURUSD'')) = True"
  by (simp add: tradability_def isIndex_def truthy_str_def)

text \<open>
  C8, amended: a symbol is reported not tradable exactly when it is absent or empty,
  contains \<open>$\<close>, or contains \<open>^\<close> and does not have 7 characters; every symbol is
  reported shortable and marketable, and the precision is \<open>null\<close>.
\<close>

theorem tradability_policy:
  "(tradable (tradability symbol) = False) =
     (case symbol of None \<Rightarrow> True
      | Some s \<Rightarrow> s = [] \<or> CHR ''$'' \<in> set s \<or> (CHR ''^'' \<in> set s \<and> length s \<noteq> 7))
   \<and> shortable (tradability symbol) \<and> marketable (tradability symbol)
   \<and> decimalPrecision (tradability symbol) = None"
  by (auto simp: tradability_def isIndex_def truthy_str_def Let_def split: option.splits)

subsection \<open>replaceOrder with an unknown id\<close>

lemma replace_orders_no_match:
  "\<forall>x \<in> set os. o_id x \<noteq> r_id r \<Longrightarrow> replace_orders r os = None"
  by (induction os) auto

lemma replace_symbols_no_match:
  "\<forall>(symbol, os) \<in> set oo. \<forall>x \<in> set os. o_id x \<noteq> r_id r
   \<Longrightarrow> replace_symbols r tr oo = None"
  by (induction oo arbitrary: tr) (auto simp: replace_orders_no_match)

lemma replaceOrder_no_match:
  "\<forall>(symbol, os) \<in> set (openOrders s). \<forall>x \<in> set os. o_id x \<noteq> r_id r
   \<Longrightarrow> replaceOrder r s = Inr (s, [])"
  by (simp add: replaceOrder_def replace_symbols_no_match)

text \<open>
  C5: a replace order whose id matches no open order leaves the account unchanged and
  still invokes \<open>cb\<close>. The account is unchanged, but the loops of \<open>replaceOrder\<close> run
  to their end and the function returns without calling \<open>cb\<close>: on the demo account
  the list of callback invocations is empty.
\<close>

theorem replaceOrder_unknown_id_no_callback:
  "replaceOrder unknown_replace demo = Inr (demo, [])"
  by (rule replaceOrder_no_match) (simp add: unknown_replace_def demo_defs)

subsection \<open>closePosition without lots\<close>

text \<open>
  C10: \<open>closePosition\<close> faults exactly when \<open>trades[position.symbol]\<close> does not exist;
  the position is then neither deleted nor is \<open>cb\<close> invoked. When the lots exist, the
  call completes, the position and the lots of the symbol are deleted and \<open>cb\<close> is
  invoked once.
\<close>

theorem closePosition_needs_trades:
  "(trades s (key_of (p_symbol position)) = None
      \<longrightarrow> closePosition position s = Inl TypeError)
   \<and> (trades s (key_of (p_symbol position)) \<noteq> None
      \<longrightarrow> (\<exists>s'. closePosition position s = Inr (s', [[]])
                \<and> positions s' (key_of (p_symbol position)) = None
                \<and> trades s' (key_of (p_symbol position)) = None))"
  by (cases "trades s (key_of (p_symbol position))")
     (simp_all add: closePosition_def Let_def)

theorem closePosition_needs_trades_witness:
  "trades demo (key_of (p_symbol tsla_position)) = None
   \<and> closePosition tsla_position demo = Inl TypeError
   \<and> trades demo (key_of (p_symbol ge_position)) \<noteq> None
   \<and> (\<exists>s'. closePosition ge_position demo = Inr (s', [[]])
          \<and> positions s' ''GE'' = None \<and> trades s' ''GE'' = None)"
  using closePosition_needs_trades [of demo tsla_position]
    closePosition_needs_trades [of demo ge_position]
  by (simp add: demo_defs key_of_def tsla_position_def ge_position_def)

subsection \<open>execute completes when the symbol has an open-order list\<close>




subsection \<open>placeOrder\<close>

lemma map_of_ensure_orders:
  "map_of (ensure_orders k oo) k = Some (case map_of oo k of None \<Rightarrow> [] | Some os \<Rightarrow> os)"
  by (simp add: ensure_orders_def update_conv' split: option.splits)


lemma map_of_push_order:
  "map_of (push_order k x oo) = (map_of oo)(k := map_option (\<lambda>os. os @ [x]) (map_of oo k))"
  by (simp add: push_order_def map_of_map_entry fun_eq_iff split: option.splits)






subsection \<open>The callback of placeOrder\<close>

text \<open>
  C6, as stated: \<open>placeOrder\<close> invokes \<open>cb(err, {id})\<close> with the id it assigned. The
  code calls \<open>cb()\<close> with no argument at all: the limit order below is given the id
  \<open>K3X0\<close> and rests in \<open>openOrders\<close>, and the one callback invocation has the empty
  argument list.
\<close>

theorem placeOrder_callback_counterexample:
  "(\<exists>s'. placeOrder (\<lambda>a. 129) ids 0 (Single limit_order) demo = Inr (s', [[]])
         \<and> map_of (openOrders s') ''AAPL'' = Some [limit_order\<lparr>o_id := Some ''K3X0''\<rparr>])
   \<and> \<not> (\<exists>s' err. placeOrder (\<lambda>a. 129) ids 0 (Single limit_order) demo
                   = Inr (s', [[err, ArgIds [''K3X0'']]]))"
  by (simp add: placeOrder_def limit_order_def blank_order_def truthy_def Let_def key_of_def
       map_of_push_order map_of_ensure_orders ids_def demo_def demo_openOrders_def)

text \<open>
  C6, amended: every \<open>placeOrder\<close> call that completes, for a single order or for an
  array, invokes the callback exactly once and without arguments (\<open>cb()\<close>); no id is
  handed to it.
\<close>

theorem placeOrder_callback:
  "placeOrder getCurrentPriceForOrder uniqueID now arg s = Inr (s', calls)
   \<Longrightarrow> calls = [[]]"
  by (auto simp: placeOrder_def Let_def
           split: order_arg.splits list.splits if_splits sum.splits)

theorem placeOrder_callback_witness:
  "\<exists>s'. placeOrder (\<lambda>a. 129) ids 0 (Array [limit_order, mit_order]) demo = Inr (s', [[]])"
  using placeOrder_callback [of "\<lambda>a. 129" ids 0 "Array [limit_order, mit_order]" demo]
  by (simp add: placeOrder_def Let_def)

subsection \<open>The position is the sum of its lots\<close>

lemma whole_Ints: "whole x \<longleftrightarrow> x \<in> \<int>"
proof
  assume "whole x"
  then obtain n :: int where "x = of_int n" by (auto simp: whole_def)
  then show "x \<in> \<int>" by simp
next
  assume "x \<in> \<int>"
  then show "whole x" by (auto simp: whole_def elim: Ints_cases)
qed

lemma whole_arith:
  assumes "whole x" and "whole y"
  shows "whole (x + y)" and "whole (x - y)" and "whole (- x)" and "whole (x * (- 1))"
  using assms by (simp_all add: whole_Ints)

lemma whole_sum_list: "\<forall>x \<in> set xs. whole x \<Longrightarrow> whole (sum_list xs)"
  by (induction xs) (simp_all add: whole_Ints)

lemma fl_whole:
  assumes "whole x" and "\<bar>x\<bar> \<le> 2 ^ 53"
  shows "fl x = x"
proof -
  from assms(1) obtain n :: int where x: "x = of_int n" by (auto simp: whole_def)
  with assms(2) have "\<bar>of_int n :: rat\<bar> \<le> of_int (2 ^ 53)" by simp
  then have "(of_int \<bar>n\<bar> :: rat) \<le> of_int (2 ^ 53)" by (simp only: of_int_abs)
  then have "\<bar>n\<bar> \<le> 2 ^ 53" by (simp only: of_int_le_iff)
  from fl_of_int [OF this] x show ?thesis by simp
qed

text \<open>
  The lot loop on whole numbers: while the magnitudes of the quantity to close and of
  the lots add up to at most \<open>2^53\<close>, every difference it computes is a double, so
  nothing is rounded.
\<close>

lemma consume_sum:
  "consume vspId qty oo ts = Inr (ts', qty', oo')
   \<Longrightarrow> whole qty \<Longrightarrow> \<forall>t \<in> set ts. whole (t_quantity t)
   \<Longrightarrow> \<bar>qty\<bar> + sum_list (map (\<lambda>t. \<bar>t_quantity t\<bar>) ts) \<le> 2 ^ 53
   \<Longrightarrow> sum_list (map t_quantity ts') - qty' = sum_list (map t_quantity ts) - qty
       \<and> whole qty' \<and> (\<forall>t \<in> set ts'. whole (t_quantity t))
       \<and> \<bar>qty'\<bar> + sum_list (map (\<lambda>t. \<bar>t_quantity t\<bar>) ts')
           \<le> \<bar>qty\<bar> + sum_list (map (\<lambda>t. \<bar>t_quantity t\<bar>) ts)"
proof (induction ts arbitrary: qty oo ts' qty' oo')
  case Nil
  then show ?case by simp
next
  case (Cons t ts)
  let ?m = "sum_list (map (\<lambda>t. \<bar>t_quantity t\<bar>) ts)"
  have m0: "0 \<le> ?m" by (rule sum_list_nonneg) auto
  from Cons.prems(3) have wt: "whole (t_quantity t)" and wts: "\<forall>t \<in> set ts. whole (t_quantity t)"
    by simp_all
  from Cons.prems(4) have bound: "\<bar>qty\<bar> + \<bar>t_quantity t\<bar> + ?m \<le> 2 ^ 53" by simp
  show ?case
  proof (cases "truthy_str vspId \<and> t_id t \<noteq> vspId")
    case True
    with Cons.prems(1) obtain ts1 where
      rec: "consume vspId qty oo ts = Inr (ts1, qty', oo')" and ts': "ts' = t # ts1"
      by (auto split: sum.splits)
    from bound have "\<bar>qty\<bar> + ?m \<le> 2 ^ 53" by linarith
    from Cons.IH [OF rec Cons.prems(2) wts this] ts' wt show ?thesis by simp
  next
    case skip: False
    show ?thesis
    proof (cases "\<bar>t_quantity t\<bar> \<le> \<bar>qty\<bar>")
      case True
      have w: "whole (qty - t_quantity t)" using Cons.prems(2) wt by (rule whole_arith)
      have b: "\<bar>qty - t_quantity t\<bar> \<le> \<bar>qty\<bar> + \<bar>t_quantity t\<bar>" by linarith
      with bound m0 have "\<bar>qty - t_quantity t\<bar> \<le> 2 ^ 53" by linarith
      with w have e: "fl (qty - t_quantity t) = qty - t_quantity t" by (rule fl_whole)
      from True skip Cons.prems(1) obtain oo1 where
        rec: "consume vspId (qty - t_quantity t) oo1 ts = Inr (ts', qty', oo')"
        unfolding consume.simps e by (auto split: option.splits)
      from b bound have "\<bar>qty - t_quantity t\<bar> + ?m \<le> 2 ^ 53" by linarith
      from Cons.IH [OF rec w wts this] b show ?thesis by simp
    next
      case False
      have w: "whole (t_quantity t - qty)" using wt Cons.prems(2) by (rule whole_arith)
      have b: "\<bar>t_quantity t - qty\<bar> \<le> \<bar>qty\<bar> + \<bar>t_quantity t\<bar>" by linarith
      with bound m0 have "\<bar>t_quantity t - qty\<bar> \<le> 2 ^ 53" by linarith
      with w have e: "fl (t_quantity t - qty) = t_quantity t - qty" by (rule fl_whole)
      from False skip Cons.prems(1)
      have "ts' = t\<lparr>t_quantity := t_quantity t - qty\<rparr> # ts" "qty' = 0"
        unfolding consume.simps e by (auto split: option.splits)
      with w wts b show ?thesis by (simp add: whole_def)
    qed
  qed
qed

lemma fill_position_quantity:
  assumes "fill_position order quantity price ps = (ps', action)"
  shows "(case ps' (key_of (o_symbol order)) of None \<Rightarrow> 0 | Some p \<Rightarrow> p_quantity p)
         = (case ps (key_of (o_symbol order)) of
              None \<Rightarrow> quantity | Some p \<Rightarrow> fl (p_quantity p + quantity))"
    and "k \<noteq> key_of (o_symbol order) \<Longrightarrow> ps' k = ps k"
  using assms
  by (auto simp: fill_position_def Let_def split: option.splits if_splits)

lemma fill_trades_sum:
  assumes "fill_trades order action quantity newTrade tso oo = Inr (tso', nq, oo')"
    and "\<And>q. t_quantity (newTrade q) = q"
    and "whole quantity"
    and "\<forall>t \<in> set (case tso of None \<Rightarrow> [] | Some ts \<Rightarrow> ts). whole (t_quantity t)"
    and "\<bar>quantity\<bar> + sum_list (map (\<lambda>t. \<bar>t_quantity t\<bar>) (case tso of None \<Rightarrow> [] | Some ts \<Rightarrow> ts))
         \<le> 2 ^ 53"
  shows "sum_list (map t_quantity (case tso' of None \<Rightarrow> [] | Some ts \<Rightarrow> ts))
         = sum_list (map t_quantity (case tso of None \<Rightarrow> [] | Some ts \<Rightarrow> ts)) + quantity
       \<and> (\<forall>t \<in> set (case tso' of None \<Rightarrow> [] | Some ts \<Rightarrow> ts). whole (t_quantity t))
       \<and> sum_list (map (\<lambda>t. \<bar>t_quantity t\<bar>) (case tso' of None \<Rightarrow> [] | Some ts \<Rightarrow> ts))
           \<le> \<bar>quantity\<bar>
              + sum_list (map (\<lambda>t. \<bar>t_quantity t\<bar>) (case tso of None \<Rightarrow> [] | Some ts \<Rightarrow> ts))"
proof (cases "opening_action action")
  case True
  with assms(1) have "tso' = Some ((case tso of None \<Rightarrow> [] | Some ts \<Rightarrow> ts) @ [newTrade quantity])"
    by (auto simp: fill_trades_def)
  with assms(2-4) show ?thesis by simp
next
  case False
  let ?ts0 = "case tso of None \<Rightarrow> [] | Some ts \<Rightarrow> ts"
  from False assms(1) obtain ts qty where
    c: "consume (o_vspId order) (quantity * (- 1)) oo ?ts0 = Inr (ts, qty, oo')"
    and r: "tso' = (if qty = 0 then (if ts = [] then None else Some ts)
                    else Some (ts @ [newTrade (qty * (- 1))]))"
    by (auto simp: fill_trades_def Let_def split: sum.splits if_splits)
  have w: "whole (quantity * (- 1))" using assms(3) assms(3) by (rule whole_arith)
  have b: "\<bar>quantity * (- 1)\<bar> + sum_list (map (\<lambda>t. \<bar>t_quantity t\<bar>) ?ts0) \<le> 2 ^ 53"
    using assms(5) by simp
  from consume_sum [OF c w assms(4) b]
  have s: "sum_list (map t_quantity ts) - qty = sum_list (map t_quantity ?ts0) + quantity"
    and wq: "whole qty" and wts: "\<forall>t \<in> set ts. whole (t_quantity t)"
    and m: "\<bar>qty\<bar> + sum_list (map (\<lambda>t. \<bar>t_quantity t\<bar>) ts)
            \<le> \<bar>quantity\<bar> + sum_list (map (\<lambda>t. \<bar>t_quantity t\<bar>) ?ts0)"
    by simp_all
  have wn: "whole (qty * (- 1))" using wq wq by (rule whole_arith)
  show ?thesis
  proof (cases "qty = 0")
    case True
    with r s wts m show ?thesis by (cases "ts = []") simp_all
  next
    case False
    with r have "tso' = Some (ts @ [newTrade (qty * (- 1))])" by simp
    with s wts wn m assms(2) show ?thesis by simp
  qed
qed

lemma execute_parts:
  assumes "execute order price uniqueID now s = Inr s'"
  obtains tso nq oo where
    "positions s' = fst (fill_position order (signed_quantity order) price (positions s))"
    "fill_trades order (snd (fill_position order (signed_quantity order) price (positions s)))
       (signed_quantity order)
       (\<lambda>q. \<lparr>t_id = Some (uniqueID 0), t_time = now, t_quantity = q, t_basis = price,
              t_price = price, t_currency = None,
              t_protect = map_option oto_protect (o_oto order)\<rparr>)
       (trades s (key_of (o_symbol order)))
       (map_of (openOrders s) (key_of (o_symbol order))) = Inr (tso, nq, oo)"
    "trades s' = (trades s)(key_of (o_symbol order) := tso)"
  using assms
  by (auto simp: execute_def Let_def split: prod.splits sum.splits option.splits)

lemma demo_quantities:
  "\<forall>symbol. position_quantity demo symbol = trades_quantity demo symbol"
  by (simp add: position_quantity_def trades_quantity_def trades_of_def demo_defs)

lemmas execute_defs = execute_def fill_trades_def fill_position_def signed_quantity_def
  opening_action_def reclassify_def weighted_basis_def basis_number_def debit_def key_of_def
  truthy_def truthy_str_def Let_def fl_simps

text \<open>
  The doubles of the examples: \<open>0.1\<close>, \<open>0.2\<close> and \<open>0.3\<close> as \<open>parseFloat\<close> reads them,
  the double sum \<open>0.1 + 0.2 = 0.30000000000000004\<close>, and the differences the sale of
  \<open>0.3\<close> computes.
\<close>

lemma double_0_1: "fl (1 / 10) = 3602879701896397 / 36028797018963968"
  using fl_eqI [of "- 56" "1 / 10" 7205759403792794]
  by (simp add: power_int_minus)

lemma double_0_2: "fl (1 / 5) = 3602879701896397 / 18014398509481984"
  using fl_eqI [of "- 55" "1 / 5" 7205759403792794]
  by (simp add: power_int_minus)

lemma double_0_3: "fl (3 / 10) = 5404319552844595 / 18014398509481984"
  using fl_eqI [of "- 54" "3 / 10" 5404319552844595]
  by (simp add: power_int_minus)

lemma double_0_1_fixed:
  "fl (3602879701896397 / 36028797018963968) = 3602879701896397 / 36028797018963968"
  using fl_eqI [of "- 56" "3602879701896397 / 36028797018963968" 7205759403792794]
  by (simp add: power_int_minus)

lemma double_0_1_plus_0_2:
  "fl (10808639105689191 / 36028797018963968) = 1351079888211149 / 4503599627370496"
  using fl_tieI [of "- 54" "10808639105689191 / 36028797018963968" 5404319552844596]
  by (simp add: power_int_minus)

lemma double_0_3_minus_0_1:
  "fl (7205759403792793 / 36028797018963968) = 7205759403792793 / 36028797018963968"
  using fl_eqI [of "- 55" "7205759403792793 / 36028797018963968" 7205759403792793]
  by (simp add: power_int_minus)

lemma double_position_left: "fl (1 / 18014398509481984) = 1 / 18014398509481984"
  using fl_eqI [of "- 106" "1 / 18014398509481984" 4503599627370496]
  by (simp add: power_int_minus)

lemma double_lot_left: "fl (1 / 36028797018963968) = 1 / 36028797018963968"
  using fl_eqI [of "- 107" "1 / 36028797018963968" 4503599627370496]
  by (simp add: power_int_minus)

lemmas double_tenths = double_0_1 double_0_2 double_0_3 double_0_1_fixed
  double_0_1_plus_0_2 double_0_3_minus_0_1 double_position_left double_lot_left

text \<open>
  C1, as stated: on fractional quantities the sums and differences of \<open>execute\<close> are
  rounded, and the position and the lots drift apart. On the demo account, whose
  positions are the sums of their lots, TSLA has an open order and no position. A
  market buy of \<open>0.1\<close> gives a position and one lot of \<open>0.1\<close>. A buy of \<open>0.2\<close> then
  leaves the position \<open>0.30000000000000004\<close> with lots of \<open>0.1\<close> and \<open>0.2\<close>: not their
  sum, although it is what adding them in doubles gives. A sale of \<open>0.3\<close> then leaves
  the position \<open>2^-54\<close> and a single lot of \<open>2^-55\<close>, which is not the sum under either
  reading.
\<close>

theorem execute_quantity_sum_counterexample:
  "\<exists>s1 s2 s3.
      execute (buy_tsla (fl (1 / 10))) 170 ids 0 demo = Inr s1
    \<and> execute (buy_tsla (fl (1 / 5))) 170 ids2 0 s1 = Inr s2
    \<and> execute (sell_tsla (fl (3 / 10))) 170 ids3 0 s2 = Inr s3
    \<and> (\<forall>symbol. position_quantity demo symbol = trades_quantity demo symbol)
    \<and> (\<forall>symbol. position_quantity s1 symbol = trades_quantity s1 symbol)
    \<and> position_quantity s2 ''TSLA'' = 1351079888211149 / 4503599627370496
    \<and> trades_quantity s2 ''TSLA'' = 10808639105689191 / 36028797018963968
    \<and> position_quantity s2 ''TSLA'' \<noteq> trades_quantity s2 ''TSLA''
    \<and> (\<forall>symbol. position_quantity s2 symbol = trades_quantity_fl s2 symbol)
    \<and> position_quantity s3 ''TSLA'' = 1 / 2 ^ 54
    \<and> map t_quantity (trades_of s3 ''TSLA'') = [1 / 2 ^ 55]
    \<and> trades_quantity s3 ''TSLA'' = 1 / 2 ^ 55
    \<and> trades_quantity_fl s3 ''TSLA'' = 1 / 2 ^ 55"
  by (simp add: buy_tsla_def sell_tsla_def blank_order_def execute_defs demo_defs ids_def
       ids2_def ids3_def position_quantity_def trades_quantity_def trades_quantity_fl_def
       trades_of_def double_tenths update_conv')

text \<open>
  C1, amended: when a call of \<open>execute\<close> completes, the order's quantity and the
  quantities of the lots of its symbol are whole numbers whose magnitudes add up to at
  most \<open>2^53\<close>, and before the call the quantity of the position of every symbol (0
  without a position) was the signed sum of the quantities of the symbol's trades (0
  without a list), then the same holds for every symbol after the call. The lots of the
  symbol are again whole numbers, and their magnitudes grow by at most the order's
  quantity.
\<close>

theorem execute_preserves_quantity_sum:
  assumes "execute order price uniqueID now s = Inr s'"
    and "\<forall>symbol. position_quantity s symbol = trades_quantity s symbol"
    and "whole (o_quantity order)"
    and "\<forall>t \<in> set (trades_of s (key_of (o_symbol order))). whole (t_quantity t)"
    and "\<bar>o_quantity order\<bar> + trades_magnitude s (key_of (o_symbol order)) \<le> 2 ^ 53"
  shows "(\<forall>symbol. position_quantity s' symbol = trades_quantity s' symbol)
       \<and> (\<forall>t \<in> set (trades_of s' (key_of (o_symbol order))). whole (t_quantity t))
       \<and> trades_magnitude s' (key_of (o_symbol order))
           \<le> \<bar>o_quantity order\<bar> + trades_magnitude s (key_of (o_symbol order))"
proof -
  let ?k = "key_of (o_symbol order)"
  let ?q = "signed_quantity order"
  let ?fp = "fill_position order ?q price (positions s)"
  let ?ts0 = "case trades s ?k of None \<Rightarrow> [] | Some ts \<Rightarrow> ts"
  from assms(1) obtain tso nq oo where
    ps: "positions s' = fst ?fp"
    and ft: "fill_trades order (snd ?fp) ?q
       (\<lambda>q. \<lparr>t_id = Some (uniqueID 0), t_time = now, t_quantity = q, t_basis = price,
              t_price = price, t_currency = None,
              t_protect = map_option oto_protect (o_oto order)\<rparr>)
       (trades s ?k) (map_of (openOrders s) ?k) = Inr (tso, nq, oo)"
    and ts: "trades s' = (trades s)(?k := tso)"
    by (rule execute_parts)
  have fp: "?fp = (fst ?fp, snd ?fp)" by simp
  have wq: "whole ?q"
    using assms(3) by (simp add: signed_quantity_def whole_Ints)
  have aq: "\<bar>?q\<bar> = \<bar>o_quantity order\<bar>"
    by (simp add: signed_quantity_def)
  have wl: "\<forall>t \<in> set ?ts0. whole (t_quantity t)"
    using assms(4) by (simp add: trades_of_def)
  have bl: "\<bar>?q\<bar> + sum_list (map (\<lambda>t. \<bar>t_quantity t\<bar>) ?ts0) \<le> 2 ^ 53"
    using assms(5) unfolding aq by (simp add: trades_magnitude_def trades_of_def)
  from fill_trades_sum [OF ft _ wq wl bl]
  have sum: "sum_list (map t_quantity (case tso of None \<Rightarrow> [] | Some ts \<Rightarrow> ts))
             = sum_list (map t_quantity ?ts0) + ?q"
    and wl': "\<forall>t \<in> set (case tso of None \<Rightarrow> [] | Some ts \<Rightarrow> ts). whole (t_quantity t)"
    and bl': "sum_list (map (\<lambda>t. \<bar>t_quantity t\<bar>) (case tso of None \<Rightarrow> [] | Some ts \<Rightarrow> ts))
              \<le> \<bar>?q\<bar> + sum_list (map (\<lambda>t. \<bar>t_quantity t\<bar>) ?ts0)"
    by simp_all
  have tq: "trades_quantity s' ?k = trades_quantity s ?k + ?q"
    using sum ts by (simp add: trades_quantity_def trades_of_def)
  have pk: "position_quantity s ?k = sum_list (map t_quantity ?ts0)"
    using assms(2) by (simp add: trades_quantity_def trades_of_def)
  have "whole (sum_list (map t_quantity ?ts0))"
    using wl by (intro whole_sum_list) auto
  then have wp: "whole (position_quantity s ?k + ?q)"
    unfolding pk using wq by (rule whole_arith)
  have "\<bar>sum_list (map t_quantity ?ts0)\<bar> \<le> sum_list (map (\<lambda>t. \<bar>t_quantity t\<bar>) ?ts0)"
    using sum_list_abs [of "map t_quantity ?ts0"] by (simp add: comp_def)
  with bl have "\<bar>position_quantity s ?k + ?q\<bar> \<le> 2 ^ 53"
    unfolding pk by linarith
  with wp have exact: "fl (position_quantity s ?k + ?q) = position_quantity s ?k + ?q"
    by (rule fl_whole)
  have pq: "position_quantity s' ?k = position_quantity s ?k + ?q"
  proof (cases "positions s ?k")
    case None
    with fill_position_quantity(1) [OF fp] ps show ?thesis
      by (simp add: position_quantity_def)
  next
    case (Some p)
    with fill_position_quantity(1) [OF fp] ps
    have "position_quantity s' ?k = fl (position_quantity s ?k + ?q)"
      by (simp add: position_quantity_def)
    with exact show ?thesis by simp
  qed
  have inv: "position_quantity s' symbol = trades_quantity s' symbol" for symbol
  proof (cases "symbol = ?k")
    case True
    with pq tq assms(2) show ?thesis by simp
  next
    case False
    then have "position_quantity s' symbol = position_quantity s symbol"
      using fill_position_quantity(2) [OF fp] ps by (simp add: position_quantity_def)
    moreover from False have "trades_quantity s' symbol = trades_quantity s symbol"
      using ts by (simp add: trades_quantity_def trades_of_def)
    ultimately show ?thesis using assms(2) by simp
  qed
  have "\<forall>t \<in> set (trades_of s' ?k). whole (t_quantity t)"
    using wl' ts by (simp add: trades_of_def)
  moreover have "trades_magnitude s' ?k \<le> \<bar>o_quantity order\<bar> + trades_magnitude s ?k"
    using bl' ts unfolding aq by (simp add: trades_magnitude_def trades_of_def)
  ultimately show ?thesis using inv by blast
qed

theorem execute_preserves_quantity_sum_witness:
  "(\<forall>symbol. position_quantity demo symbol = trades_quantity demo symbol)
   \<and> whole (o_quantity sell_ibm)
   \<and> map t_quantity (trades_of demo (key_of (o_symbol sell_ibm))) = [300, 600, 100]
   \<and> whole 300 \<and> whole 600 \<and> whole 100
   \<and> \<bar>o_quantity sell_ibm\<bar> + trades_magnitude demo (key_of (o_symbol sell_ibm)) = 1400
   \<and> (1400 :: rat) \<le> 2 ^ 53
   \<and> (\<exists>s'. execute sell_ibm 129 ids 0 demo = Inr s'
          \<and> position_quantity s' ''IBM'' = 600 \<and> trades_quantity s' ''IBM'' = 600
          \<and> (\<forall>symbol. position_quantity s' symbol = trades_quantity s' symbol)
          \<and> map t_quantity (trades_of s' ''IBM'') = [500, 100]
          \<and> trades_magnitude s' ''IBM'' = 600)"
proof -
  have k: "key_of (o_symbol sell_ibm) = ''IBM''"
    by (simp add: sell_ibm_def blank_order_def key_of_def)
  have w: "whole (o_quantity sell_ibm)"
    by (simp add: sell_ibm_def blank_order_def whole_def)
  have l: "map t_quantity (trades_of demo (key_of (o_symbol sell_ibm))) = [300, 600, 100]"
    by (simp add: sell_ibm_def blank_order_def key_of_def trades_of_def demo_defs)
  have ws: "whole 300" "whole 600" "whole 100" by (simp_all add: whole_def)
  have wl: "\<forall>t \<in> set (trades_of demo (key_of (o_symbol sell_ibm))). whole (t_quantity t)"
    by (simp add: sell_ibm_def blank_order_def key_of_def trades_of_def demo_defs whole_def)
  have m: "\<bar>o_quantity sell_ibm\<bar> + trades_magnitude demo (key_of (o_symbol sell_ibm)) = 1400"
    by (simp add: sell_ibm_def blank_order_def key_of_def trades_magnitude_def trades_of_def
          demo_defs)
  have b: "\<bar>o_quantity sell_ibm\<bar> + trades_magnitude demo (key_of (o_symbol sell_ibm)) \<le> 2 ^ 53"
    unfolding m by simp
  have "\<exists>s'. execute sell_ibm 129 ids 0 demo = Inr s' \<and> position_quantity s' ''IBM'' = 600
          \<and> map t_quantity (trades_of s' ''IBM'') = [500, 100]"
    by (simp add: sell_ibm_def blank_order_def execute_defs demo_defs position_quantity_def
          trades_of_def)
  then obtain s' where e: "execute sell_ibm 129 ids 0 demo = Inr s'"
    and p: "position_quantity s' ''IBM'' = 600"
    and t: "map t_quantity (trades_of s' ''IBM'') = [500, 100]"
    by auto
  from execute_preserves_quantity_sum [OF e demo_quantities w wl b]
  have inv: "\<forall>symbol. position_quantity s' symbol = trades_quantity s' symbol"
    by (rule conjunct1)
  with p have tq: "trades_quantity s' ''IBM'' = 600" by simp
  have "trades_magnitude s' ''IBM'' = sum_list (map abs (map t_quantity (trades_of s' ''IBM'')))"
    by (simp add: trades_magnitude_def comp_def)
  then have tm: "trades_magnitude s' ''IBM'' = 600"
    unfolding t by simp
  have big: "(1400 :: rat) \<le> 2 ^ 53" by simp
  from demo_quantities w l ws m big e p tq inv t tm show ?thesis
    by (intro conjI exI [of _ s']) assumption+
qed

subsection \<open>Positions and lots of quantity 0\<close>

lemma consume_nonzero:
  "consume vspId qty oo ts = Inr (ts', qty', oo')
   \<Longrightarrow> t' \<in> set ts' \<Longrightarrow> t' \<in> set ts \<or> t_quantity t' \<noteq> 0"
proof (induction vspId qty oo ts arbitrary: ts' qty' oo' rule: consume.induct)
  case (1 vspId qty oo)
  then show ?case by simp
next
  case (2 vspId qty oo t ts)
  then show ?case
    by (auto simp: fl_eq_0_iff split: if_splits sum.splits option.splits)
qed

lemma fill_position_zero:
  assumes "fill_position order quantity price ps = (ps', action)"
  shows "ps (key_of (o_symbol order)) = Some p \<Longrightarrow> p_quantity p + quantity = 0
         \<Longrightarrow> ps' (key_of (o_symbol order)) = None"
    and "ps' (key_of (o_symbol order)) = Some p'
         \<Longrightarrow> p_quantity p' \<noteq> 0 \<or> (ps (key_of (o_symbol order)) = None \<and> quantity = 0)"
  using assms
  by (auto simp: fill_position_def Let_def fl_eq_0_iff split: option.splits if_splits)

lemma fill_trades_nonzero:
  assumes "fill_trades order action quantity newTrade tso oo = Inr (tso', nq, oo')"
    and "\<And>q. t_quantity (newTrade q) = q"
    and "t' \<in> set (case tso' of None \<Rightarrow> [] | Some ts \<Rightarrow> ts)"
  shows "t' \<in> set (case tso of None \<Rightarrow> [] | Some ts \<Rightarrow> ts) \<or> t_quantity t' \<noteq> 0
         \<or> (quantity = 0 \<and> t' = newTrade 0)"
proof (cases "opening_action action")
  case True
  with assms(1,3) have "t' \<in> set (case tso of None \<Rightarrow> [] | Some ts \<Rightarrow> ts) \<or> t' = newTrade quantity"
    by (auto simp: fill_trades_def)
  with assms(2) show ?thesis by (cases "quantity = 0") auto
next
  case False
  with assms(1) obtain ts qty where
    c: "consume (o_vspId order) (quantity * (- 1)) oo
          (case tso of None \<Rightarrow> [] | Some ts \<Rightarrow> ts) = Inr (ts, qty, oo')"
    and r: "tso' = (if qty = 0 then (if ts = [] then None else Some ts)
                    else Some (ts @ [newTrade (qty * (- 1))]))"
    by (auto simp: fill_trades_def Let_def split: sum.splits if_splits)
  from r assms(3) have "t' \<in> set ts \<or> (qty \<noteq> 0 \<and> t' = newTrade (qty * (- 1)))"
    by (auto split: if_splits)
  then show ?thesis
  proof
    assume "t' \<in> set ts"
    from consume_nonzero [OF c this] show ?thesis by blast
  next
    assume "qty \<noteq> 0 \<and> t' = newTrade (qty * (- 1))"
    with assms(2) show ?thesis by simp
  qed
qed

text \<open>
  C4: when a call of \<open>execute\<close> completes, a position of the order's symbol whose
  quantity the fill brings to exactly 0 is no longer in \<open>positions\<close>; a position left
  there has a nonzero quantity, unless an order of quantity 0 has just created it.
  Every lot left in \<open>trades[symbol]\<close> is a lot the fill did not change, or has a
  nonzero quantity, or is the new lot of an order of quantity 0: no lot that the
  consumption reduced to 0 stays in the list.
\<close>

theorem execute_zero_cleanup:
  assumes "execute order price uniqueID now s = Inr s'"
  shows "(\<forall>p. positions s (key_of (o_symbol order)) = Some p
               \<and> p_quantity p + signed_quantity order = 0
             \<longrightarrow> positions s' (key_of (o_symbol order)) = None)
       \<and> (\<forall>p'. positions s' (key_of (o_symbol order)) = Some p'
             \<longrightarrow> p_quantity p' \<noteq> 0
                 \<or> (positions s (key_of (o_symbol order)) = None \<and> signed_quantity order = 0))
       \<and> (\<forall>t' \<in> set (trades_of s' (key_of (o_symbol order))).
             t' \<in> set (trades_of s (key_of (o_symbol order))) \<or> t_quantity t' \<noteq> 0
             \<or> (signed_quantity order = 0 \<and> t_id t' = Some (uniqueID 0)))"
proof -
  let ?k = "key_of (o_symbol order)"
  let ?fp = "fill_position order (signed_quantity order) price (positions s)"
  let ?new = "\<lambda>q. \<lparr>t_id = Some (uniqueID 0), t_time = now, t_quantity = q, t_basis = price,
              t_price = price, t_currency = None,
              t_protect = map_option oto_protect (o_oto order)\<rparr>"
  from assms obtain tso nq oo where
    ps: "positions s' = fst ?fp"
    and ft: "fill_trades order (snd ?fp) (signed_quantity order) ?new
       (trades s ?k) (map_of (openOrders s) ?k) = Inr (tso, nq, oo)"
    and ts: "trades s' = (trades s)(?k := tso)"
    by (rule execute_parts)
  have fp: "?fp = (positions s', snd ?fp)" using ps by simp
  have lots: "t' \<in> set (trades_of s ?k) \<or> t_quantity t' \<noteq> 0
        \<or> (signed_quantity order = 0 \<and> t_id t' = Some (uniqueID 0))"
    if "t' \<in> set (trades_of s' ?k)" for t'
  proof -
    from that ts have "t' \<in> set (case tso of None \<Rightarrow> [] | Some ts \<Rightarrow> ts)"
      by (simp add: trades_of_def)
    from fill_trades_nonzero [OF ft _ this]
    show ?thesis by (auto simp: trades_of_def)
  qed
  from fill_position_zero [OF fp] lots show ?thesis by blast
qed

theorem execute_zero_cleanup_witness:
  "(\<exists>p. positions demo ''GE'' = Some p \<and> p_quantity p + signed_quantity sell_ge = 0)
   \<and> (\<exists>s'. execute sell_ge 24 ids 0 demo = Inr s'
          \<and> positions s' ''GE'' = None \<and> trades_of s' ''GE'' = [])
   \<and> (\<exists>s'. execute sell_ibm 129 ids 0 demo = Inr s'
          \<and> map_option p_quantity (positions s' ''IBM'') = Some 600
          \<and> map t_quantity (trades_of demo ''IBM'') = [300, 600, 100]
          \<and> map t_quantity (trades_of s' ''IBM'') = [500, 100])"
proof -
  have k: "key_of (o_symbol sell_ge) = ''GE''"
    by (simp add: sell_ge_def blank_order_def key_of_def)
  have p: "\<exists>p. positions demo ''GE'' = Some p \<and> p_quantity p + signed_quantity sell_ge = 0"
    by (simp add: sell_ge_def blank_order_def signed_quantity_def demo_defs)
  have "\<exists>s'. execute sell_ge 24 ids 0 demo = Inr s' \<and> trades_of s' ''GE'' = []"
    by (simp add: sell_ge_def blank_order_def execute_defs demo_defs trades_of_def)
  then obtain s' where e: "execute sell_ge 24 ids 0 demo = Inr s'"
    and t: "trades_of s' ''GE'' = []"
    by auto
  from execute_zero_cleanup [OF e] p k have gone: "positions s' ''GE'' = None" by auto
  have ibm: "\<exists>s'. execute sell_ibm 129 ids 0 demo = Inr s'
          \<and> map_option p_quantity (positions s' ''IBM'') = Some 600
          \<and> map t_quantity (trades_of demo ''IBM'') = [300, 600, 100]
          \<and> map t_quantity (trades_of s' ''IBM'') = [500, 100]"
    by (simp add: sell_ibm_def blank_order_def execute_defs demo_defs trades_of_def)
  from p e t gone ibm show ?thesis by auto
qed



subsection \<open>The weighted basis\<close>






















subsection \<open>cancelOrder\<close>

lemma cancel_orders_list:
  "cancel_orders isOne oid tso os = Inr (os', tso')
   \<Longrightarrow> os' = map (\<lambda>x. if id_eq_oco isOne oid (o_oco x) then x\<lparr>o_oco := OcoNull\<rparr> else x)
               (filter (\<lambda>x. o_id x \<noteq> oid) os)"
  by (induction isOne oid tso os arbitrary: os' tso' rule: cancel_orders.induct)
     (auto split: if_splits sum.splits option.splits)

lemma cancel_symbols_list:
  "cancel_symbols isOne oid tr oo = Inr (oo', tr')
   \<Longrightarrow> oo' = map (\<lambda>(symbol, os).
                  (symbol, map (\<lambda>x. if id_eq_oco isOne oid (o_oco x)
                                      then x\<lparr>o_oco := OcoNull\<rparr> else x)
                             (filter (\<lambda>x. o_id x \<noteq> oid) os))) oo"
proof (induction oo arbitrary: tr oo' tr')
  case Nil
  then show ?case by simp
next
  case (Cons entry oo)
  obtain k xs where entry: "entry = (k, xs)" by (cases entry)
  from Cons.prems entry obtain xs' tso rest where
    c: "cancel_orders isOne oid (tr k) xs = Inr (xs', tso)"
    and r: "cancel_symbols isOne oid (tr(k := tso)) oo = Inr (rest, tr')"
    and oo': "oo' = (k, xs') # rest"
    by (auto split: sum.splits)
  from cancel_orders_list [OF c] Cons.IH [OF r] entry oo' show ?case by simp
qed

lemma cancel_orders_unlinked:
  "\<forall>x \<in> set os. oid = o_id x \<longrightarrow> \<not> truthy_str (o_tradeid x)
   \<Longrightarrow> cancel_orders isOne oid tso os = Inr (os', tso') \<Longrightarrow> tso' = tso"
  by (induction isOne oid tso os arbitrary: os' tso' rule: cancel_orders.induct)
     (auto split: if_splits sum.splits option.splits)

lemma cancel_orders_single:
  "filter (\<lambda>x. oid = o_id x) os = [openOrder] \<Longrightarrow> truthy_str (o_tradeid openOrder)
   \<Longrightarrow> cancel_orders isOne oid (Some ts) os = Inr (os', tso')
   \<Longrightarrow> \<exists>ts'. unprotect openOrder ts = Inr ts' \<and> tso' = Some ts'"
proof (induction os arbitrary: os')
  case Nil
  then show ?case by simp
next
  case (Cons x os)
  show ?case
  proof (cases "oid = o_id x")
    case True
    with Cons.prems(1) have x: "x = openOrder" and none: "filter (\<lambda>x. oid = o_id x) os = []"
      by auto
    from True x Cons.prems(2,3) obtain ts' where u: "unprotect openOrder ts = Inr ts'"
      and rest: "cancel_orders isOne oid (Some ts') os = Inr (os', tso')"
      by (cases "unprotect openOrder ts") auto
    from none have "\<forall>x \<in> set os. oid = o_id x \<longrightarrow> \<not> truthy_str (o_tradeid x)"
      by (simp add: filter_empty_conv)
    from cancel_orders_unlinked [OF this rest] u show ?thesis by simp
  next
    case False
    with Cons.prems(1) have one: "filter (\<lambda>x. oid = o_id x) os = [openOrder]" by simp
    from False Cons.prems(3) obtain os1 where
      "cancel_orders isOne oid (Some ts) os = Inr (os1, tso')"
      by (auto split: sum.splits)
    from Cons.IH [OF one Cons.prems(2) this] show ?thesis .
  qed
qed

lemma cancel_symbols_absent:
  "\<forall>os x. (symbol, os) \<in> set oo \<and> x \<in> set os \<and> oid = o_id x \<longrightarrow> \<not> truthy_str (o_tradeid x)
   \<Longrightarrow> cancel_symbols isOne oid tr oo = Inr (oo', tr') \<Longrightarrow> tr' symbol = tr symbol"
proof (induction oo arbitrary: tr oo')
  case Nil
  then show ?case by simp
next
  case (Cons entry oo)
  obtain k xs where entry: "entry = (k, xs)" by (cases entry)
  from Cons.prems(2) entry obtain xs' tso rest where
    c: "cancel_orders isOne oid (tr k) xs = Inr (xs', tso)"
    and r: "cancel_symbols isOne oid (tr(k := tso)) oo = Inr (rest, tr')"
    by (auto split: sum.splits)
  from Cons.prems(1) have
    "\<forall>os x. (symbol, os) \<in> set oo \<and> x \<in> set os \<and> oid = o_id x \<longrightarrow> \<not> truthy_str (o_tradeid x)"
    by auto
  from Cons.IH [OF this r] have step: "tr' symbol = (tr(k := tso)) symbol" .
  show ?case
  proof (cases "k = symbol")
    case True
    with Cons.prems(1) entry have "\<forall>x \<in> set xs. oid = o_id x \<longrightarrow> \<not> truthy_str (o_tradeid x)"
      by auto
    from cancel_orders_unlinked [OF this c] True step show ?thesis by simp
  next
    case False
    with step show ?thesis by simp
  qed
qed

lemma cancel_symbols_untouched:
  "symbol \<notin> fst ` set oo \<Longrightarrow> cancel_symbols isOne oid tr oo = Inr (oo', tr')
   \<Longrightarrow> tr' symbol = tr symbol"
  by (rule cancel_symbols_absent [of symbol oo oid isOne tr oo' tr']) force+

lemma cancel_symbols_entry:
  "distinct (map fst oo) \<Longrightarrow> cancel_symbols isOne oid tr oo = Inr (oo', tr')
   \<Longrightarrow> (symbol, os) \<in> set oo
   \<Longrightarrow> \<exists>os'. cancel_orders isOne oid (tr symbol) os = Inr (os', tr' symbol)"
proof (induction oo arbitrary: tr oo')
  case Nil
  then show ?case by simp
next
  case (Cons entry oo)
  obtain k xs where entry: "entry = (k, xs)" by (cases entry)
  from Cons.prems(2) entry obtain xs' tso rest where
    c: "cancel_orders isOne oid (tr k) xs = Inr (xs', tso)"
    and r: "cancel_symbols isOne oid (tr(k := tso)) oo = Inr (rest, tr')"
    by (auto split: sum.splits)
  from Cons.prems(1) entry have fresh: "k \<notin> fst ` set oo" and d: "distinct (map fst oo)"
    by simp_all
  show ?case
  proof (cases "(symbol, os) = entry")
    case True
    with entry have "symbol = k" "os = xs" by simp_all
    with cancel_symbols_untouched [OF fresh r] c show ?thesis by simp
  next
    case False
    with Cons.prems(3) have later: "(symbol, os) \<in> set oo" by simp
    with fresh have "symbol \<noteq> k" by force
    with Cons.IH [OF d r later] show ?thesis by simp
  qed
qed

lemma unprotect_first:
  "\<forall>t \<in> set pre. t_id t \<noteq> o_tradeid openOrder \<Longrightarrow> t_id trade = o_tradeid openOrder
   \<Longrightarrow> t_protect trade = Some p
   \<Longrightarrow> unprotect openOrder (pre @ trade # post)
       = Inr (pre @ trade\<lparr>t_protect :=
                (if truthy (o_stop openOrder)
                 then (if truthy (pr_limit p) then Some (p\<lparr>pr_stop := None\<rparr>) else None)
                 else if truthy (o_limit openOrder)
                 then (if truthy (pr_stop p) then Some (p\<lparr>pr_limit := None\<rparr>) else None)
                 else (if truthy (pr_stop p) \<or> truthy (pr_limit p) then Some p else None))\<rparr>
              # post)"
  by (induction pre) (auto simp: Let_def truthy_def)

text \<open>
  C3: when \<open>cancelOrder\<close> completes, exactly the open orders with the id of the given
  order are removed, in every symbol; every other open order whose \<open>oco\<close> equals that
  id stays, with \<open>oco\<close> set to \<open>null\<close>, and all others stay as they are; \<open>cb\<close> is called
  once. When the one cancelled order of a symbol carries a \<open>tradeid\<close>, the first lot
  of the symbol with that id loses \<open>protect.stop\<close> if the order had a stop, else
  \<open>protect.limit\<close> if it had a limit, and its whole \<open>protect\<close> object when no leg is
  left; the lots of a symbol without a cancelled trade-linked order are unchanged.
\<close>

theorem cancelOrder_severs:
  assumes "cancelOrder isOne order s = Inr (s', calls)"
  shows "openOrders s'
         = map (\<lambda>(symbol, os).
                  (symbol, map (\<lambda>x. if id_eq_oco isOne (o_id order) (o_oco x)
                                      then x\<lparr>o_oco := OcoNull\<rparr> else x)
                             (filter (\<lambda>x. o_id x \<noteq> o_id order) os))) (openOrders s)
       \<and> calls = [[]] \<and> positions s' = positions s \<and> balances s' = balances s
       \<and> (\<forall>symbol os openOrder pre trade post p.
             distinct (map fst (openOrders s)) \<and> (symbol, os) \<in> set (openOrders s)
             \<and> filter (\<lambda>x. o_id order = o_id x) os = [openOrder]
             \<and> truthy_str (o_tradeid openOrder)
             \<and> trades s symbol = Some (pre @ trade # post)
             \<and> (\<forall>t \<in> set pre. t_id t \<noteq> o_tradeid openOrder)
             \<and> t_id trade = o_tradeid openOrder \<and> t_protect trade = Some p
           \<longrightarrow> trades s' symbol
               = Some (pre @ trade\<lparr>t_protect :=
                  (if truthy (o_stop openOrder)
                   then (if truthy (pr_limit p) then Some (p\<lparr>pr_stop := None\<rparr>) else None)
                   else if truthy (o_limit openOrder)
                   then (if truthy (pr_stop p) then Some (p\<lparr>pr_limit := None\<rparr>) else None)
                   else (if truthy (pr_stop p) \<or> truthy (pr_limit p) then Some p else None))\<rparr>
                 # post))
       \<and> (\<forall>symbol.
             (\<forall>os x. (symbol, os) \<in> set (openOrders s) \<and> x \<in> set os
                     \<and> o_id order = o_id x \<longrightarrow> \<not> truthy_str (o_tradeid x))
           \<longrightarrow> trades s' symbol = trades s symbol)"
proof -
  from assms obtain oo tr where
    c: "cancel_symbols isOne (o_id order) (trades s) (openOrders s) = Inr (oo, tr)"
    and s': "s' = s\<lparr>openOrders := oo, trades := tr\<rparr>" and calls: "calls = [[]]"
    by (auto simp: cancelOrder_def split: sum.splits)
  have orders: "openOrders s'
         = map (\<lambda>(symbol, os).
                  (symbol, map (\<lambda>x. if id_eq_oco isOne (o_id order) (o_oco x)
                                      then x\<lparr>o_oco := OcoNull\<rparr> else x)
                             (filter (\<lambda>x. o_id x \<noteq> o_id order) os))) (openOrders s)"
    using cancel_symbols_list [OF c] s' by simp
  have frame: "positions s' = positions s" "balances s' = balances s"
    using s' by simp_all
  have linked: "trades s' symbol
               = Some (pre @ trade\<lparr>t_protect :=
                  (if truthy (o_stop openOrder)
                   then (if truthy (pr_limit p) then Some (p\<lparr>pr_stop := None\<rparr>) else None)
                   else if truthy (o_limit openOrder)
                   then (if truthy (pr_stop p) then Some (p\<lparr>pr_limit := None\<rparr>) else None)
                   else (if truthy (pr_stop p) \<or> truthy (pr_limit p) then Some p else None))\<rparr>
                 # post)"
    if d: "distinct (map fst (openOrders s))" and e: "(symbol, os) \<in> set (openOrders s)"
      and one: "filter (\<lambda>x. o_id order = o_id x) os = [openOrder]"
      and tid: "truthy_str (o_tradeid openOrder)"
      and ts: "trades s symbol = Some (pre @ trade # post)"
      and pre: "\<forall>t \<in> set pre. t_id t \<noteq> o_tradeid openOrder"
      and t: "t_id trade = o_tradeid openOrder" "t_protect trade = Some p"
    for symbol os openOrder pre trade post p
  proof -
    from cancel_symbols_entry [OF d c e] ts obtain os' where
      "cancel_orders isOne (o_id order) (Some (pre @ trade # post)) os = Inr (os', tr symbol)"
      by auto
    from cancel_orders_single [OF one tid this] obtain ts' where
      "unprotect openOrder (pre @ trade # post) = Inr ts'" "tr symbol = Some ts'"
      by blast
    with unprotect_first [OF pre t, of post] s' show ?thesis by simp
  qed
  have unlinked: "trades s' symbol = trades s symbol"
    if "\<forall>os x. (symbol, os) \<in> set (openOrders s) \<and> x \<in> set os
                     \<and> o_id order = o_id x \<longrightarrow> \<not> truthy_str (o_tradeid x)"
    for symbol
    using cancel_symbols_absent [OF that c] s' by simp
  from orders calls frame linked unlinked show ?thesis by blast
qed

theorem cancelOrder_severs_witness:
  "distinct (map fst (openOrders demo))
   \<and> filter (\<lambda>x. o_id order_9 = o_id x) (the (map_of (openOrders demo) ''IBM'')) = [order_9]
   \<and> truthy_str (o_tradeid order_9)
   \<and> map t_id (trades_of demo ''IBM'') = [o_tradeid order_9, Some ''IBM002'', Some ''IBM003'']
   \<and> (\<exists>s'. cancelOrder (\<lambda>x. False) order_9 demo = Inr (s', [[]])
          \<and> map (\<lambda>(symbol, os). (symbol, map o_id os)) (openOrders s')
              = [(''IBM'', [Some ''1'', Some ''2'', Some ''10'']), (''TSLA'', [Some ''3'']),
                 (''GE'', [Some ''4'', Some ''5'']), (''LNKD'', [Some ''6''])]
          \<and> map o_oco (the (map_of (openOrders s') ''IBM'')) = [OcoAbsent, OcoAbsent, OcoNull]
          \<and> map t_protect (trades_of s' ''IBM'')
              = [Some \<lparr>pr_limit = None, pr_stop = Some 135\<rparr>, None, None]
          \<and> trades s' ''GE'' = trades demo ''GE'')"
proof -
  let ?ibm = "the (map_of (openOrders demo) ''IBM'')"
  let ?post = "[mk_trade ''IBM002'' 1366910520000 600 (12713 / 100) (12913 / 100) None,
                mk_trade ''IBM003'' 1407181680000 100 (12613 / 100) (12913 / 100) None]"
  have d: "distinct (map fst (openOrders demo))"
    by (simp add: demo_def demo_openOrders_def)
  have e: "(''IBM'', ?ibm) \<in> set (openOrders demo)"
    by (simp add: demo_def demo_openOrders_def)
  have one: "filter (\<lambda>x. o_id order_9 = o_id x) ?ibm = [order_9]"
    by (simp add: demo_def demo_openOrders_def order_9_def mk_order_def)
  have tid: "truthy_str (o_tradeid order_9)"
    by (simp add: order_9_def mk_order_def truthy_str_def)
  have ts: "trades demo ''IBM'' = Some ([] @ ibm001 # ?post)"
    by (simp add: demo_def demo_trades_def ibm001_def)
  have pre: "\<forall>t \<in> set []. t_id t \<noteq> o_tradeid order_9"
    by simp
  have t: "t_id ibm001 = o_tradeid order_9"
    "t_protect ibm001 = Some \<lparr>pr_limit = Some 165, pr_stop = Some 135\<rparr>"
    by (simp_all add: ibm001_def order_9_def mk_trade_def mk_order_def)
  have ge: "\<forall>os x. (''GE'', os) \<in> set (openOrders demo) \<and> x \<in> set os
              \<and> o_id order_9 = o_id x \<longrightarrow> \<not> truthy_str (o_tradeid x)"
    by (auto simp: demo_def demo_openOrders_def order_9_def mk_order_def)
  have "\<exists>s'. cancelOrder (\<lambda>x. False) order_9 demo = Inr (s', [[]])"
    by (simp add: cancelOrder_def id_eq_oco_def truthy_def truthy_str_def Let_def
          order_9_def demo_defs)
  then obtain s' where c: "cancelOrder (\<lambda>x. False) order_9 demo = Inr (s', [[]])"
    by blast
  note sev = cancelOrder_severs [OF c]
  from sev have "openOrders s'
         = map (\<lambda>(symbol, os).
                  (symbol, map (\<lambda>x. if id_eq_oco (\<lambda>x. False) (o_id order_9) (o_oco x)
                                      then x\<lparr>o_oco := OcoNull\<rparr> else x)
                             (filter (\<lambda>x. o_id x \<noteq> o_id order_9) os))) (openOrders demo)"
    by blast
  then have oo: "map (\<lambda>(symbol, os). (symbol, map o_id os)) (openOrders s')
              = [(''IBM'', [Some ''1'', Some ''2'', Some ''10'']), (''TSLA'', [Some ''3'']),
                 (''GE'', [Some ''4'', Some ''5'']), (''LNKD'', [Some ''6''])]"
    and oco: "map o_oco (the (map_of (openOrders s') ''IBM'')) = [OcoAbsent, OcoAbsent, OcoNull]"
    by (simp_all add: order_9_def demo_defs id_eq_oco_def)
  from sev d e one tid ts pre t
  have "trades s' ''IBM''
        = Some ([] @ ibm001\<lparr>t_protect :=
                  (if truthy (o_stop order_9)
                   then (if truthy (pr_limit \<lparr>pr_limit = Some 165, pr_stop = Some 135\<rparr>)
                         then Some (\<lparr>pr_limit = Some 165, pr_stop = Some 135\<rparr>\<lparr>pr_stop := None\<rparr>)
                         else None)
                   else if truthy (o_limit order_9)
                   then (if truthy (pr_stop \<lparr>pr_limit = Some 165, pr_stop = Some 135\<rparr>)
                         then Some (\<lparr>pr_limit = Some 165, pr_stop = Some 135\<rparr>\<lparr>pr_limit := None\<rparr>)
                         else None)
                   else (if truthy (pr_stop \<lparr>pr_limit = Some 165, pr_stop = Some 135\<rparr>)
                            \<or> truthy (pr_limit \<lparr>pr_limit = Some 165, pr_stop = Some 135\<rparr>)
                         then Some \<lparr>pr_limit = Some 165, pr_stop = Some 135\<rparr> else None))\<rparr>
                # ?post)"
    by blast
  then have lots: "map t_protect (trades_of s' ''IBM'')
              = [Some \<lparr>pr_limit = None, pr_stop = Some 135\<rparr>, None, None]"
    by (simp add: trades_of_def order_9_def mk_order_def mk_trade_def truthy_def)
  from sev ge have same: "trades s' ''GE'' = trades demo ''GE''"
    by blast
  have ids: "map t_id (trades_of demo ''IBM'')
             = [o_tradeid order_9, Some ''IBM002'', Some ''IBM003'']"
    by (simp add: trades_of_def demo_defs order_9_def)
  show ?thesis
    using d one tid ids c oo oco lots same
    by (intro conjI exI [of _ s']) assumption+
qed


subsection \<open>cancelOrder on a lot without protect\<close>

lemma unprotect_fault:
  "lacks_protect ts (o_tradeid openOrder) \<Longrightarrow> unprotect openOrder ts = Inl TypeError"
  by (induction ts) (auto simp: lacks_protect_def)

lemma unprotect_lacks:
  "unprotect openOrder ts = Inr ts' \<Longrightarrow> lacks_protect ts tradeid \<Longrightarrow> lacks_protect ts' tradeid"
proof (induction ts arbitrary: ts')
  case Nil
  then show ?case by simp
next
  case (Cons t ts)
  show ?case
  proof (cases "t_id t = o_tradeid openOrder")
    case True
    with Cons.prems show ?thesis
      by (auto simp: lacks_protect_def Let_def split: option.splits if_splits)
  next
    case False
    with Cons.prems obtain ts1 where u: "unprotect openOrder ts = Inr ts1" and ts': "ts' = t # ts1"
      by (auto split: sum.splits)
    show ?thesis
    proof (cases "t_id t = tradeid")
      case True
      with Cons.prems(2) ts' show ?thesis by (simp add: lacks_protect_def)
    next
      case False
      with Cons.prems(2) have "lacks_protect ts tradeid" by (simp add: lacks_protect_def)
      from Cons.IH [OF u this] False ts' show ?thesis by (simp add: lacks_protect_def)
    qed
  qed
qed

lemma cancel_orders_lacks:
  "cancel_orders isOne oid (Some ts) os = Inr (os', tso') \<Longrightarrow> lacks_protect ts tradeid
   \<Longrightarrow> \<exists>ts'. tso' = Some ts' \<and> lacks_protect ts' tradeid"
proof (induction os arbitrary: ts os' tso')
  case Nil
  then show ?case by auto
next
  case (Cons x os)
  show ?case
  proof (cases "oid = o_id x")
    case True
    show ?thesis
    proof (cases "truthy_str (o_tradeid x)")
      case linked: True
      with True Cons.prems(1) obtain ts1 where u: "unprotect x ts = Inr ts1"
        and rest: "cancel_orders isOne oid (Some ts1) os = Inr (os', tso')"
        by (cases "unprotect x ts") auto
      from unprotect_lacks [OF u Cons.prems(2)] have "lacks_protect ts1 tradeid" .
      from Cons.IH [OF rest this] show ?thesis .
    next
      case False
      with True Cons.prems(1) have "cancel_orders isOne oid (Some ts) os = Inr (os', tso')"
        by simp
      from Cons.IH [OF this Cons.prems(2)] show ?thesis .
    qed
  next
    case False
    with Cons.prems(1) obtain os1 where "cancel_orders isOne oid (Some ts) os = Inr (os1, tso')"
      by (auto split: sum.splits)
    from Cons.IH [OF this Cons.prems(2)] show ?thesis .
  qed
qed

lemma cancel_orders_fault:
  assumes "openOrder \<in> set os" "oid = o_id openOrder" "truthy_str (o_tradeid openOrder)"
    and "lacks_protect ts (o_tradeid openOrder)"
  shows "cancel_orders isOne oid (Some ts) os = Inl TypeError"
  using assms(1,4)
proof (induction os arbitrary: ts)
  case Nil
  then show ?case by simp
next
  case (Cons x os)
  show ?case
  proof (cases "x = openOrder")
    case True
    with assms(2,3) Cons.prems(2) show ?thesis by (simp add: unprotect_fault)
  next
    case False
    with Cons.prems(1) have later: "openOrder \<in> set os" by simp
    show ?thesis
    proof (cases "oid = o_id x \<and> truthy_str (o_tradeid x)")
      case linked: True
      show ?thesis
      proof (cases "unprotect x ts")
        case (Inl e)
        with linked show ?thesis by (cases e) simp
      next
        case (Inr ts1)
        from unprotect_lacks [OF Inr Cons.prems(2)]
        have "lacks_protect ts1 (o_tradeid openOrder)" .
        from Cons.IH [OF later this] linked Inr show ?thesis by simp
      qed
    next
      case False
      with Cons.IH [OF later Cons.prems(2)] show ?thesis by auto
    qed
  qed
qed

lemma cancel_symbols_fault:
  assumes "openOrder \<in> set os" "oid = o_id openOrder" "truthy_str (o_tradeid openOrder)"
  shows "(symbol, os) \<in> set oo \<Longrightarrow> tr symbol = Some ts
         \<Longrightarrow> lacks_protect ts (o_tradeid openOrder)
         \<Longrightarrow> cancel_symbols isOne oid tr oo = Inl TypeError"
proof (induction oo arbitrary: tr ts)
  case Nil
  then show ?case by simp
next
  case (Cons entry oo)
  obtain k xs where entry: "entry = (k, xs)" by (cases entry)
  show ?case
  proof (cases "cancel_orders isOne oid (tr k) xs")
    case (Inl e)
    with entry show ?thesis by (cases e) simp
  next
    case (Inr r)
    obtain xs' tso where r: "r = (xs', tso)" by (cases r)
    have here: "entry \<noteq> (symbol, os)"
    proof
      assume "entry = (symbol, os)"
      with entry have "k = symbol" "xs = os" by simp_all
      with cancel_orders_fault [OF assms Cons.prems(3), of isOne] Cons.prems(2) Inr
      show False by simp
    qed
    with Cons.prems(1) have later: "(symbol, os) \<in> set oo" by simp
    have "\<exists>ts'. (tr(k := tso)) symbol = Some ts' \<and> lacks_protect ts' (o_tradeid openOrder)"
    proof (cases "k = symbol")
      case True
      with Inr r Cons.prems(2) have "cancel_orders isOne oid (Some ts) xs = Inr (xs', tso)"
        by simp
      from cancel_orders_lacks [OF this Cons.prems(3)] True show ?thesis by simp
    next
      case False
      with Cons.prems(2,3) show ?thesis by simp
    qed
    then obtain ts' where "(tr(k := tso)) symbol = Some ts'"
      "lacks_protect ts' (o_tradeid openOrder)" by blast
    from Cons.IH [of "tr(k := tso)" ts', OF later this]
    have "cancel_symbols isOne oid (tr(k := tso)) oo = Inl TypeError" .
    then show ?thesis by (simp add: entry Inr r)
  qed
qed

text \<open>
  C9: \<open>cancelOrder\<close> completes only if no matched open order with a \<open>tradeid\<close> links
  to a lot without \<open>protect\<close>: when an open order with the id of the given order
  carries a \<open>tradeid\<close> and the first lot of its symbol with that id has no \<open>protect\<close>
  object, the call faults with a TypeError; it neither completes nor invokes \<open>cb\<close>.
\<close>

theorem cancelOrder_faults_without_protect:
  assumes "(symbol, os) \<in> set (openOrders s)" and "openOrder \<in> set os"
    and "o_id order = o_id openOrder" and "truthy_str (o_tradeid openOrder)"
    and "trades s symbol = Some ts"
    and "find (\<lambda>t. t_id t = o_tradeid openOrder) ts = Some trade"
    and "t_protect trade = None"
  shows "cancelOrder isOne order s = Inl TypeError"
proof -
  from assms(6,7) have "lacks_protect ts (o_tradeid openOrder)"
    by (simp add: lacks_protect_def)
  from cancel_symbols_fault [where tr = "trades s" and ts = ts, OF assms(2,3,4,1,5) this]
  show ?thesis by (simp add: cancelOrder_def)
qed

theorem cancelOrder_faults_without_protect_witness:
  "(''IBM'', the (map_of (openOrders demo_bare) ''IBM'')) \<in> set (openOrders demo_bare)
   \<and> order_9 \<in> set (the (map_of (openOrders demo_bare) ''IBM''))
   \<and> truthy_str (o_tradeid order_9)
   \<and> trades demo_bare ''IBM'' = Some [ibm001\<lparr>t_protect := None\<rparr>]
   \<and> find (\<lambda>t. t_id t = o_tradeid order_9) [ibm001\<lparr>t_protect := None\<rparr>]
       = Some (ibm001\<lparr>t_protect := None\<rparr>)
   \<and> cancelOrder (\<lambda>x. False) order_9 demo_bare = Inl TypeError"
proof -
  let ?ibm = "the (map_of (openOrders demo_bare) ''IBM'')"
  have e: "(''IBM'', ?ibm) \<in> set (openOrders demo_bare)"
    by (simp add: demo_bare_def demo_def demo_openOrders_def)
  have o: "order_9 \<in> set ?ibm"
    by (simp add: demo_bare_def demo_def demo_openOrders_def order_9_def)
  have tid: "truthy_str (o_tradeid order_9)"
    by (simp add: order_9_def mk_order_def truthy_str_def)
  have ts: "trades demo_bare ''IBM'' = Some [ibm001\<lparr>t_protect := None\<rparr>]"
    by (simp add: demo_bare_def)
  have f: "find (\<lambda>t. t_id t = o_tradeid order_9) [ibm001\<lparr>t_protect := None\<rparr>]
           = Some (ibm001\<lparr>t_protect := None\<rparr>)"
    by (simp add: ibm001_def order_9_def mk_trade_def mk_order_def)
  have "cancelOrder (\<lambda>x. False) order_9 demo_bare = Inl TypeError"
    by (rule cancelOrder_faults_without_protect [OF e o refl tid ts f]) simp
  with e o tid ts f show ?thesis
    by (intro conjI) assumption+
qed

end
